theory Spec2Isabelle
  imports Main
begin

section \<open>The incremental build orchestrator of core/lib/patternlab.js\<close>

text \<open>
  The orchestrator is embedded as a state-passing program over the context object
  \<open>patternlab\<close>. A run returns its result, the context as the run left it, and the list
  of actions the orchestrator itself performed, in order (console output, emitted events,
  calls of \<open>fs\<close>, calls of collaborating modules). Code of other modules (assembler,
  lineage hunter, graph, engines, plugins' event listeners) is a parameter: the record
  \<open>env\<close>. A collaborator that is handed the context may change any field of it and may
  throw; it cannot rewrite the list of actions already performed.

  Asynchronous code is run in the order in which its callbacks are called: the walk of
  the first traversal hands over its entries one by one and then resolves, the process
  steps run one after the other, and a build is followed from its call to the settling of
  its promise. What arrives while a build is under way meets the context with its busy
  flag set, which is all that the entry points look at.

  The constructor is given the configuration, so that \<open>config\<close>, the captured
  \<open>paths\<close> and \<open>patternlab.config\<close> are one object: the field \<open>config\<close> of the
  context.
\<close>

subsection \<open>Data\<close>

type_synonym exn = string
type_synonym path = string
type_synonym pref = nat

text \<open>Modelled from the spec: the enumeration CompileState of object_factory.js
  (CLEAN, NEEDS_REBUILD, BUILDING).\<close>
datatype CompileState = NEEDS_REBUILD | BUILDING | CLEAN

datatype json =
    JNull
  | JBool bool
  | JNum int
  | JStr string
  | JArr "json list"
  | JObj "(string \<times> json) list"

text \<open>A plain JavaScript object: its own enumerable keys in insertion order.\<close>
type_synonym jsobject = "(string \<times> json) list"

text \<open>Modelled from the spec: the Pattern object of object_factory.js, with the fields
  patternlab.js reads and writes. \<open>extraOutput\<close> and \<open>allMarkdown\<close> are objects; the
  empty list also stands for null and undefined, from which Object.assign copies nothing.
  \<open>engine\<close> names the rendering engine, an object shared between patterns;
  \<open>pattern_header\<close> is pattern.header (the context has a header of its own).\<close>
record Pattern =
  relPath :: path
  isPattern :: bool
  isMetaPattern :: bool
  compileState :: CompileState
  template :: string
  extendedTemplate :: string
  lineage :: "json list"
  lineageR :: "json list"
  patternLineages :: "json list"
  patternLineageExists :: bool
  patternLineagesR :: "json list"
  patternLineageRExists :: bool
  patternLineageEExists :: bool
  jsonFileData :: jsobject
  pattern_header :: string
  patternPartialCode :: string
  patternData :: string
  extraOutput :: jsobject
  allMarkdown :: jsobject
  patternDescExists :: bool
  patternDesc :: string
  patternGroup :: string
  patternSubGroup :: string
  fileExtension :: string
  patternName :: string
  patternPartial :: string
  patternState :: string
  engine :: string

text \<open>Modelled from the spec: the dependency graph of pattern_graph.js, one node per
  Pattern holding a compile state, and a version stamp. Its edges stay with the
  graph's own operations, which are parameters.\<close>
record PatternGraph =
  version :: nat
  node_compileState :: "pref \<Rightarrow> CompileState"

record config =
  cleanOutputHtml :: bool
  cacheBust :: bool
  debug :: bool
  exportToGraphViz :: bool
  source_data :: path
  source_meta :: path
  source_patterns :: path
  general_header :: path
  general_footer :: path
  patternSection_file :: path
  patternSectionSubtype_file :: path
  viewall_file :: path
  public_patterns :: path
  public_root :: path

text \<open>The options object of build; copyAssets reads \<open>watch\<close>.\<close>
record options =
  cleanPublic :: bool
  watch :: bool

text \<open>The two handlers build registers: on a change event they set options.cleanPublic
  to the given value and call build again, unless the context is busy.\<close>
datatype handler = Rebuild bool

text \<open>The context object. \<open>heap\<close> holds the Pattern objects, \<open>patterns\<close> the references
  in patternlab.patterns; \<open>listeners\<close> are the handlers this file registered on the
  event bus, in registration order. \<open>isBusy\<close> is undefined, hence false, until a build
  sets it. \<open>graph\<close> is null until buildPatterns assigns it, which it does before
  anything reads it.\<close>
record patternlab =
  config :: config
  isBusy :: bool
  graph :: PatternGraph
  data :: jsobject
  listitems :: jsobject
  header :: string
  footer :: string
  patternSection :: string
  patternSectionSubType :: string
  viewAll :: string
  userHead :: "string option"
  userFoot :: "string option"
  patterns :: "pref list"
  heap :: "pref \<Rightarrow> Pattern"
  subtypePatterns :: jsobject
  partials :: jsobject
  cacheBuster :: int
  listeners :: "(string \<times> handler) list"

record Engine =
  engineName :: string
  renderedCodeFormatter :: "(string \<Rightarrow> Pattern \<Rightarrow> string) option"
  rawTemplateCodeFormatter :: "(string \<Rightarrow> Pattern \<Rightarrow> string) option"
  markupOnlyCodeFormatter :: "(string \<Rightarrow> Pattern \<Rightarrow> string) option"
  addOutputFiles :: "(config \<Rightarrow> patternlab \<Rightarrow> (path \<times> string) list) option"

datatype render_arg = Template string | PatternObj Pattern | Undefined

text \<open>Calls that hand the context to another module. The last two stand in the list of
  actions for calls that also return a value, which \<open>env\<close> gives by fields of their own.\<close>
datatype call =
    Listeners string "pref option"
  | upgradeVersion
  | combine_listItems
  | load_pattern_iterative path
  | process_pattern_iterative pref
  | parse_data_links
  | process_pattern_recursive path
  | cascade_pattern_states
  | mark_modified_patterns int
  | storeToFile
  | exportToDot string
  | export_patterns
  | buildFrontend
  | copyAssets options
  | callback
  | decomposePattern_of path
  | graph_sync_call

text \<open>What the orchestrator does, as it does it: a line of console output (console.log
  and the plutils loggers), an emitted event with the pattern it is about, a call of an
  fs function (recorded when the call is made, whether it then returns or throws), a call
  of a collaborator.\<close>
datatype action =
    Log string
  | Emit string "pref option"
  | FsEmptyDir path
  | FsReadFile path
  | FsOutputFile path string
  | Ext call

record env =
  path_resolve :: "path list \<Rightarrow> path"
  path_join :: "path list \<Rightarrow> path"
  path_relative :: "path \<Rightarrow> path \<Rightarrow> path"
  getTime :: int
  fs_readFileSync :: "path \<Rightarrow> exn + string"
  fs_emptyDirSync :: "path \<Rightarrow> exn option"
  fs_outputFileSync :: "path \<Rightarrow> string \<Rightarrow> exn option"
  JSON_stringify :: "json \<Rightarrow> string"
  debug_dump :: "patternlab \<Rightarrow> string"
  cleanHtml :: "string \<Rightarrow> string"
  dive :: "path \<Rightarrow> (exn + path) list"
  diveSync :: "path \<Rightarrow> (exn + path) list"
  collab :: "call \<Rightarrow> patternlab \<Rightarrow> exn option \<times> patternlab"
  PatternGraph_empty :: PatternGraph
  PatternGraph_loadFromFile :: "patternlab \<Rightarrow> exn + PatternGraph"
  PatternGraph_checkVersion :: "PatternGraph \<Rightarrow> bool"
  graph_sync :: "patternlab \<Rightarrow> (exn + string list) \<times> patternlab"
  graph_compileOrder :: "patternlab \<Rightarrow> exn + pref list"
  loadDataFromFolder :: "path \<Rightarrow> exn + jsobject"
  loadDataFromFile :: "path \<Rightarrow> exn + jsobject"
  jsonCopy :: "jsobject \<Rightarrow> exn + jsobject"
  merge :: "jsobject option \<Rightarrow> jsobject \<Rightarrow> jsobject"
  new_Pattern :: "path \<Rightarrow> patternlab \<Rightarrow> exn + Pattern"
  decomposePattern :: "Pattern \<Rightarrow> patternlab \<Rightarrow> (exn + Pattern) \<times> patternlab"
  renderPattern :: "render_arg \<Rightarrow> json \<Rightarrow> exn + string"
  getPatternLink :: "Pattern \<Rightarrow> patternlab \<Rightarrow> string \<Rightarrow> string"
  engines :: "string \<Rightarrow> Engine"

subsection \<open>Control: results, exceptions, promises\<close>

text \<open>
  How a piece of code can end other than by returning: \<open>Throw\<close> is an exception
  propagating synchronously, \<open>Reject\<close> a promise that is rejected, \<open>Exit\<close> a call of
  process.exit, \<open>Uncaught\<close> an exception that escapes into the callback of the
  asynchronous directory walk, where no handler of this file can reach it.
  For a function that returns a promise, \<open>Ok\<close> is the promise fulfilled.
\<close>
datatype stop = Throw exn | Reject exn | Exit nat | Uncaught exn

datatype 'a res = Ok 'a | Stop stop

type_synonym 'a prog = "patternlab \<Rightarrow> 'a res \<times> patternlab \<times> action list"

definition ret :: "'a \<Rightarrow> 'a prog" where
  "ret x = (\<lambda>s. (Ok x, s, []))"

definition bind :: "'a prog \<Rightarrow> ('a \<Rightarrow> 'b prog) \<Rightarrow> 'b prog" where
  "bind m f = (\<lambda>s.
     case m s of
       (Ok x, s1, t1) \<Rightarrow> (case f x s1 of (r, s2, t2) \<Rightarrow> (r, s2, t1 @ t2))
     | (Stop k, s1, t1) \<Rightarrow> (Stop k, s1, t1))"

fun seq :: "unit prog list \<Rightarrow> unit prog" where
  "seq [] = ret ()"
| "seq (m # ms) = bind m (\<lambda>_. seq ms)"

definition gets :: "(patternlab \<Rightarrow> 'a) \<Rightarrow> 'a prog" where
  "gets f = (\<lambda>s. (Ok (f s), s, []))"

definition modify :: "(patternlab \<Rightarrow> patternlab) \<Rightarrow> unit prog" where
  "modify f = (\<lambda>s. (Ok (), f s, []))"

definition tell :: "action \<Rightarrow> unit prog" where
  "tell a = (\<lambda>s. (Ok (), s, [a]))"

definition stop_with :: "stop \<Rightarrow> 'a prog" where
  "stop_with k = (\<lambda>s. (Stop k, s, []))"

definition if_then :: "bool \<Rightarrow> unit prog \<Rightarrow> unit prog" where
  "if_then b m = (if b then m else ret ())"

text \<open>try { m } catch (ex) { h ex }: only a synchronous exception is caught.\<close>
definition try_catch :: "'a prog \<Rightarrow> (exn \<Rightarrow> 'a prog) \<Rightarrow> 'a prog" where
  "try_catch m h = (\<lambda>s.
     case m s of
       (Stop (Throw e), s1, t1) \<Rightarrow> (case h e s1 of (r, s2, t2) \<Rightarrow> (r, s2, t1 @ t2))
     | other \<Rightarrow> other)"

text \<open>Code run as a promise callback: an exception it throws rejects the promise.\<close>
definition in_callback :: "'a prog \<Rightarrow> 'a prog" where
  "in_callback m = (\<lambda>s.
     case m s of
       (Stop (Throw e), s1, t1) \<Rightarrow> (Stop (Reject e), s1, t1)
     | other \<Rightarrow> other)"

text \<open>p.then(f): f runs once p is fulfilled; a rejection of p passes through.\<close>
definition promise_then :: "'a prog \<Rightarrow> ('a \<Rightarrow> 'b prog) \<Rightarrow> 'b prog" where
  "promise_then p f = bind p (\<lambda>x. in_callback (f x))"

text \<open>p.catch(h): h runs when p is rejected, and its return value fulfils the result.\<close>
definition promise_catch :: "'a prog \<Rightarrow> (exn \<Rightarrow> 'a prog) \<Rightarrow> 'a prog" where
  "promise_catch p h = (\<lambda>s.
     case p s of
       (Stop (Reject e), s1, t1) \<Rightarrow>
         (case in_callback (h e) s1 of (r, s2, t2) \<Rightarrow> (r, s2, t1 @ t2))
     | other \<Rightarrow> other)"

text \<open>Code run inside the callback of the asynchronous walk: an exception escapes.\<close>
definition in_walk_callback :: "'a prog \<Rightarrow> 'a prog" where
  "in_walk_callback m = (\<lambda>s.
     case m s of
       (Stop (Throw e), s1, t1) \<Rightarrow> (Stop (Uncaught e), s1, t1)
     | other \<Rightarrow> other)"

subsection \<open>Primitive statements\<close>

definition log :: "string \<Rightarrow> unit prog" where
  "log msg = tell (Log msg)"

text \<open>A call into another module that is handed the context.\<close>
definition ext :: "env \<Rightarrow> call \<Rightarrow> unit prog" where
  "ext env c = (\<lambda>s.
     case collab env c s of
       (None, s1) \<Rightarrow> (Ok (), s1, [Ext c])
     | (Some e, s1) \<Rightarrow> (Stop (Throw e), s1, [Ext c]))"

text \<open>patternlab.events.emit(name, patternlab, pattern): the emission is recorded and
  the handlers other modules registered for the event run synchronously.\<close>
definition emit :: "env \<Rightarrow> string \<Rightarrow> pref option \<Rightarrow> unit prog" where
  "emit env name p = (\<lambda>s.
     case collab env (Listeners name p) s of
       (None, s1) \<Rightarrow> (Ok (), s1, [Emit name p])
     | (Some e, s1) \<Rightarrow> (Stop (Throw e), s1, [Emit name p]))"

text \<open>A value computed by another module, which may throw instead.\<close>
definition attempt :: "exn + 'a \<Rightarrow> 'a prog" where
  "attempt r = (case r of Inl e \<Rightarrow> stop_with (Throw e) | Inr v \<Rightarrow> ret v)"

definition readFileSync :: "env \<Rightarrow> path \<Rightarrow> string prog" where
  "readFileSync env p = bind (tell (FsReadFile p)) (\<lambda>_. attempt (fs_readFileSync env p))"

definition emptyDirSync :: "env \<Rightarrow> path \<Rightarrow> unit prog" where
  "emptyDirSync env p = bind (tell (FsEmptyDir p)) (\<lambda>_.
     case fs_emptyDirSync env p of None \<Rightarrow> ret () | Some e \<Rightarrow> stop_with (Throw e))"

definition outputFileSync :: "env \<Rightarrow> path \<Rightarrow> string \<Rightarrow> unit prog" where
  "outputFileSync env p c = bind (tell (FsOutputFile p c)) (\<lambda>_.
     case fs_outputFileSync env p c of None \<Rightarrow> ret () | Some e \<Rightarrow> stop_with (Throw e))"

definition update_pattern :: "pref \<Rightarrow> (Pattern \<Rightarrow> Pattern) \<Rightarrow> unit prog" where
  "update_pattern pattern f =
     modify (\<lambda>s. s\<lparr>heap := (heap s)(pattern := f (heap s pattern))\<rparr>)"

text \<open>patternlab.graph.node(pattern).compileState = pattern.compileState = cs\<close>
definition set_compileState :: "pref \<Rightarrow> CompileState \<Rightarrow> unit prog" where
  "set_compileState pattern cs =
     modify (\<lambda>s. s\<lparr>heap := (heap s)(pattern := (heap s pattern)\<lparr>compileState := cs\<rparr>),
                   graph := (graph s)\<lparr>node_compileState :=
                     (node_compileState (graph s))(pattern := cs)\<rparr>\<rparr>)"

subsection \<open>Objects\<close>

definition obj_put :: "jsobject \<Rightarrow> string \<Rightarrow> json \<Rightarrow> jsobject" where
  "obj_put obj k v =
     (if k \<in> fst ` set obj then map (\<lambda>(k', v'). if k' = k then (k, v) else (k', v')) obj
      else obj @ [(k, v)])"

definition obj_delete :: "string \<Rightarrow> jsobject \<Rightarrow> jsobject" where
  "obj_delete k obj = filter (\<lambda>(k', v'). k' \<noteq> k) obj"

definition Object_assign :: "jsobject \<Rightarrow> jsobject \<Rightarrow> jsobject" where
  "Object_assign target source = fold (\<lambda>(k, v) t. obj_put t k v) source target"

definition extraOutput_dump :: "Pattern \<Rightarrow> jsobject" where
  "extraOutput_dump p =
     obj_delete ''markdown'' (obj_delete ''state'' (obj_delete ''title''
       (Object_assign (Object_assign [] (extraOutput p)) (allMarkdown p))))"

text \<open>The object handed to JSON.stringify for pattern.patternData.\<close>
definition patternData_object :: "env \<Rightarrow> Pattern \<Rightarrow> json" where
  "patternData_object env p = JObj [
     (''cssEnabled'', JBool False),
     (''patternLineageExists'', JBool (patternLineageExists p)),
     (''patternLineages'', JArr (patternLineages p)),
     (''lineage'', JArr (patternLineages p)),
     (''patternLineageRExists'', JBool (patternLineageRExists p)),
     (''patternLineagesR'', JArr (patternLineagesR p)),
     (''lineageR'', JArr (patternLineagesR p)),
     (''patternLineageEExists'', JBool (patternLineageExists p \<or> patternLineageRExists p)),
     (''patternDesc'', JStr (if patternDescExists p then patternDesc p else [])),
     (''patternBreadcrumb'',
        if patternGroup p = patternSubGroup p
        then JObj [(''patternType'', JStr (patternGroup p))]
        else JObj [(''patternType'', JStr (patternGroup p)),
                   (''patternSubtype'', JStr (patternSubGroup p))]),
     (''patternExtension'', JStr (drop 1 (fileExtension p))),
     (''patternName'', JStr (patternName p)),
     (''patternPartial'', JStr (patternPartial p)),
     (''patternState'', JStr (patternState p)),
     (''patternEngineName'', JStr (engineName (engines env (engine p)))),
     (''extraOutput'', JObj (extraOutput_dump p))]"

subsection \<open>writePatternFiles\<close>

definition nullFormatter :: "string \<Rightarrow> Pattern \<Rightarrow> string" where
  "nullFormatter str p = str"

definition defaultFormatter :: "env \<Rightarrow> string \<Rightarrow> Pattern \<Rightarrow> string" where
  "defaultFormatter env codeString p = cleanHtml env codeString"

text \<open>a || b on a formatter that an engine may leave undefined.\<close>
definition or_else :: "'a option \<Rightarrow> 'a \<Rightarrow> 'a" where
  "or_else a b = (case a of Some f \<Rightarrow> f | None \<Rightarrow> b)"

definition makePath :: "env \<Rightarrow> patternlab \<Rightarrow> Pattern \<Rightarrow> string \<Rightarrow> path" where
  "makePath env s p type =
     path_join env [public_patterns (config s), getPatternLink env p s type]"

definition outputFiles :: "env \<Rightarrow> string \<Rightarrow> pref \<Rightarrow> string \<Rightarrow> patternlab \<Rightarrow> (path \<times> string) list"
  where
  "outputFiles env headHTML pattern footerHTML s =
     (let p = heap s pattern;
          patternPage = headHTML @ patternPartialCode p @ footerHTML;
          eng = engines env (engine p);
          rendered = (if cleanOutputHtml (config s)
                      then or_else (renderedCodeFormatter eng) (defaultFormatter env)
                      else nullFormatter);
          rawTemplate = (if cleanOutputHtml (config s)
                         then or_else (rawTemplateCodeFormatter eng) (defaultFormatter env)
                         else nullFormatter);
          markupOnly = (if cleanOutputHtml (config s)
                        then or_else (markupOnlyCodeFormatter eng) (defaultFormatter env)
                        else nullFormatter)
      in [(makePath env s p ''rendered'', rendered patternPage p),
          (makePath env s p ''rawTemplate'', rawTemplate (template p) p),
          (makePath env s p ''markupOnly'', markupOnly (patternPartialCode p) p)]
         @ (case addOutputFiles eng of Some f \<Rightarrow> f (config s) s | None \<Rightarrow> []))"

definition writePatternFiles :: "env \<Rightarrow> string \<Rightarrow> pref \<Rightarrow> string \<Rightarrow> unit prog" where
  "writePatternFiles env headHTML pattern footerHTML =
     bind (gets (outputFiles env headHTML pattern footerHTML)) (\<lambda>files.
       seq (map (\<lambda>(p, c). outputFileSync env p c) files))"

subsection \<open>renderSinglePattern\<close>

text \<open>Lines 411-418 and 469-476: the global data is copied, a failure of the copy is
  logged and leaves the copy undefined, and the pattern's own data is merged over it.\<close>
definition merged_data :: "env \<Rightarrow> pref \<Rightarrow> jsobject prog" where
  "merged_data env pattern =
     bind (try_catch
             (bind (gets data) (\<lambda>d. bind (attempt (jsonCopy env d)) (\<lambda>c. ret (Some c))))
             (\<lambda>err. bind (gets (\<lambda>s. relPath (heap s pattern))) (\<lambda>rp.
                bind (seq [log (''There was an error parsing JSON for '' @ rp), log err])
                  (\<lambda>_. ret None))))
       (\<lambda>allData. gets (\<lambda>s. merge env allData (jsonFileData (heap s pattern))))"

text \<open>Lines 398-408: the transition to BUILDING, the lineage flags and the first event.\<close>
definition begin_render :: "env \<Rightarrow> pref \<Rightarrow> unit prog" where
  "begin_render env pattern = seq [
     set_compileState pattern BUILDING,
     update_pattern pattern (\<lambda>p. p\<lparr>patternLineages := lineage p\<rparr>),
     update_pattern pattern (\<lambda>p. p\<lparr>patternLineageExists := (length (lineage p) > 0)\<rparr>),
     update_pattern pattern (\<lambda>p. p\<lparr>patternLineagesR := lineageR p\<rparr>),
     update_pattern pattern (\<lambda>p. p\<lparr>patternLineageRExists := (length (lineageR p) > 0)\<rparr>),
     update_pattern pattern (\<lambda>p. p\<lparr>patternLineageEExists :=
       (patternLineageExists p \<or> patternLineageRExists p)\<rparr>),
     emit env ''patternlab-pattern-before-data-merge'' (Some pattern)]"

text \<open>Lines 410-479: the data is merged, head, body and foot are rendered and the
  metadata is serialised; the value is the pair of the head and foot fragments.\<close>
definition render_fragments :: "env \<Rightarrow> pref \<Rightarrow> string \<Rightarrow> (string \<times> string) prog" where
  "render_fragments env pattern head =
     bind (merged_data env pattern) (\<lambda>allData0.
     bind (gets cacheBuster) (\<lambda>cb.
     let allData = obj_put allData0 ''cacheBuster'' (JNum cb) in
     bind (update_pattern pattern (\<lambda>p. p\<lparr>pattern_header := head\<rparr>)) (\<lambda>_.
     bind (gets (\<lambda>s. pattern_header (heap s pattern))) (\<lambda>h.
     bind (attempt (renderPattern env (Template h) (JObj allData))) (\<lambda>headHTML.
     bind (gets (\<lambda>s. heap s pattern)) (\<lambda>p.
     bind (attempt (renderPattern env (PatternObj p) (JObj allData))) (\<lambda>code.
     bind (update_pattern pattern (\<lambda>p. p\<lparr>patternPartialCode := code\<rparr>)) (\<lambda>_.
     bind (update_pattern pattern (\<lambda>p.
             p\<lparr>patternData := JSON_stringify env (patternData_object env p)\<rparr>)) (\<lambda>_.
     bind (gets (\<lambda>s. (footer s, JObj [
             (''isPattern'', JBool (isPattern (heap s pattern))),
             (''patternData'', JStr (patternData (heap s pattern))),
             (''cacheBuster'', JNum (cacheBuster s))]))) (\<lambda>(ft, footerData).
     bind (attempt (renderPattern env (Template ft) footerData)) (\<lambda>footerPartial.
     bind (merged_data env pattern) (\<lambda>allFooterData0.
     let allFooterData = obj_put allFooterData0 ''patternLabFoot'' (JStr footerPartial) in
     bind (gets userFoot) (\<lambda>uf.
     bind (attempt (renderPattern env
             (case uf of Some f \<Rightarrow> Template f | None \<Rightarrow> Undefined) (JObj allFooterData)))
       (\<lambda>footerHTML.
     ret (headHTML, footerHTML)))))))))))))))"

text \<open>Lines 481-486: the files are written between the two write events.\<close>
definition write_files :: "env \<Rightarrow> pref \<Rightarrow> string \<Rightarrow> string \<Rightarrow> unit prog" where
  "write_files env pattern headHTML footerHTML = seq [
     emit env ''patternlab-pattern-write-begin'' (Some pattern),
     writePatternFiles env headHTML pattern footerHTML,
     emit env ''patternlab-pattern-write-end'' (Some pattern)]"

text \<open>Lines 488-490: the transition to CLEAN and the log line.\<close>
definition finish_render :: "pref \<Rightarrow> unit prog" where
  "finish_render pattern = seq [
     set_compileState pattern CLEAN,
     bind (gets (\<lambda>s. patternPartial (heap s pattern))) (\<lambda>pp. log (''Built pattern: '' @ pp))]"

definition renderSinglePattern :: "env \<Rightarrow> pref \<Rightarrow> string \<Rightarrow> bool prog" where
  "renderSinglePattern env pattern head = (\<lambda>s.
     if \<not> isPattern (heap s pattern) \<or> compileState (heap s pattern) = CLEAN
     then ret False s
     else bind (begin_render env pattern) (\<lambda>_.
          bind (render_fragments env pattern head) (\<lambda>(headHTML, footerHTML).
          bind (write_files env pattern headHTML footerHTML) (\<lambda>_.
          bind (finish_render pattern) (\<lambda>_.
          ret True)))) s)"

subsection \<open>The two traversals\<close>

text \<open>The walk of \<open>dive\<close> is asynchronous: it hands every entry it finds (a file, or the
  error of reading it) to the callback, and calls \<open>resolve\<close> when the walk is over.\<close>
definition load_entry :: "env \<Rightarrow> path \<Rightarrow> exn + path \<Rightarrow> unit prog" where
  "load_entry env patterns_dir entry =
     (case entry of
        Inl err \<Rightarrow> log (''error in processAllPatternsIterative(): '' @ err)
      | Inr file \<Rightarrow>
          in_walk_callback (ext env (load_pattern_iterative (path_relative env patterns_dir file))))"

definition load_all :: "env \<Rightarrow> path \<Rightarrow> unit prog" where
  "load_all env patterns_dir = seq (map (load_entry env patterns_dir) (dive env patterns_dir))"

definition process_all :: "env \<Rightarrow> unit prog" where
  "process_all env =
     bind (gets patterns) (\<lambda>ps. seq (map (\<lambda>p. ext env (process_pattern_iterative p)) ps))"

definition processAllPatternsIterative :: "env \<Rightarrow> path \<Rightarrow> unit prog" where
  "processAllPatternsIterative env patterns_dir =
     promise_then (load_all env patterns_dir) (\<lambda>_. process_all env)"

definition recursive_entry :: "env \<Rightarrow> path \<Rightarrow> exn + path \<Rightarrow> unit prog" where
  "recursive_entry env patterns_dir entry =
     (case entry of
        Inl err \<Rightarrow> log err
      | Inr file \<Rightarrow> ext env (process_pattern_recursive (path_relative env patterns_dir file)))"

definition processAllPatternsRecursive :: "env \<Rightarrow> path \<Rightarrow> unit prog" where
  "processAllPatternsRecursive env patterns_dir =
     seq (map (recursive_entry env patterns_dir) (diveSync env patterns_dir))"

subsection \<open>The user's head and foot\<close>

definition decompose :: "env \<Rightarrow> Pattern \<Rightarrow> Pattern prog" where
  "decompose env p = (\<lambda>s.
     case decomposePattern env p s of
       (Inr p', s1) \<Rightarrow> (Ok p', s1, [Ext (decomposePattern_of (relPath p))])
     | (Inl e, s1) \<Rightarrow> (Stop (Throw e), s1, [Ext (decomposePattern_of (relPath p))]))"

definition head_missing_message :: "env \<Rightarrow> config \<Rightarrow> string" where
  "head_missing_message env cfg =
     ''WARNING: Could not find the user-editable header template, currently configured to be at ''
     @ path_join env [source_meta cfg, ''_00-head.mustache'']
     @ ''. Your configured path may be incorrect (check paths.source.meta in your config file), the file may have been deleted, or it may have been left in the wrong place during a migration or update.''"

definition foot_missing_message :: "env \<Rightarrow> config \<Rightarrow> string" where
  "foot_missing_message env cfg =
     ''WARNING: Could not find the user-editable footer template, currently configured to be at ''
     @ path_join env [source_meta cfg, ''_01-foot.mustache'']
     @ ''. Your configured path may be incorrect (check paths.source.meta in your config file), the file may have been deleted, or it may have been left in the wrong place during a migration or update.''"

definition processHeadPattern :: "env \<Rightarrow> unit prog" where
  "processHeadPattern env =
     try_catch
       (bind (gets (\<lambda>s. path_resolve env [source_meta (config s), ''_00-head.mustache''])) (\<lambda>headPath.
        bind (gets id) (\<lambda>s.
        bind (attempt (new_Pattern env headPath s)) (\<lambda>headPattern.
        bind (readFileSync env headPath) (\<lambda>t.
        bind (decompose env (headPattern\<lparr>template := t, isPattern := False, isMetaPattern := True\<rparr>))
          (\<lambda>headPattern'.
        modify (\<lambda>s. s\<lparr>userHead := Some (extendedTemplate headPattern')\<rparr>)))))))
       (\<lambda>ex. bind (gets config) (\<lambda>cfg. seq [
          log (head_missing_message env cfg),
          if_then (debug cfg) (log ex),
          stop_with (Exit 1)]))"

definition processFootPattern :: "env \<Rightarrow> unit prog" where
  "processFootPattern env =
     try_catch
       (bind (gets (\<lambda>s. path_resolve env [source_meta (config s), ''_01-foot.mustache''])) (\<lambda>footPath.
        bind (gets id) (\<lambda>s.
        bind (attempt (new_Pattern env footPath s)) (\<lambda>footPattern.
        bind (readFileSync env footPath) (\<lambda>t.
        bind (decompose env (footPattern\<lparr>template := t, isPattern := False, isMetaPattern := True\<rparr>))
          (\<lambda>footPattern'.
        modify (\<lambda>s. s\<lparr>userFoot := Some (extendedTemplate footPattern')\<rparr>)))))))
       (\<lambda>ex. bind (gets config) (\<lambda>cfg. seq [
          log (foot_missing_message env cfg),
          if_then (debug cfg) (log ex),
          stop_with (Exit 1)]))"

subsection \<open>buildPatterns\<close>

definition loadPatternGraph :: "env \<Rightarrow> bool \<Rightarrow> PatternGraph prog" where
  "loadPatternGraph env deletePatternDir =
     (if deletePatternDir then ret (PatternGraph_empty env)
      else bind (gets id) (\<lambda>s. attempt (PatternGraph_loadFromFile env s)))"

definition incrementalBuildsEnabled :: "bool \<Rightarrow> bool \<Rightarrow> bool" where
  "incrementalBuildsEnabled deletePatternDir graphNeedsUpgrade =
     (\<not> (deletePatternDir \<or> graphNeedsUpgrade))"

definition upgrade_message :: string where
  "upgrade_message = ''Due to an upgrade, a complete rebuild is required and the public/patterns directory was deleted. Incremental build is available again on the next successful run.''"

text \<open>Lines 514-537: the graph is loaded and checked; the value is graphNeedsUpgrade.\<close>
definition load_graph :: "env \<Rightarrow> bool \<Rightarrow> bool prog" where
  "load_graph env deletePatternDir =
     bind (gets config) (\<lambda>cfg.
     bind (if_then (debug cfg) (log ''====[ Pattern Lab / Node ]====''))  (\<lambda>_.
     bind (emit env ''patternlab-build-pattern-start'' None) (\<lambda>_.
     bind (loadPatternGraph env deletePatternDir) (\<lambda>g.
     bind (modify (\<lambda>s. s\<lparr>graph := g\<rparr>)) (\<lambda>_.
     let graphNeedsUpgrade = \<not> PatternGraph_checkVersion env g in
     bind (if_then graphNeedsUpgrade (seq [log upgrade_message, ext env upgradeVersion])) (\<lambda>_.
     ret graphNeedsUpgrade))))))"

text \<open>Lines 539-544.\<close>
definition clear_or_keep :: "env \<Rightarrow> bool \<Rightarrow> unit prog" where
  "clear_or_keep env incremental =
     (if incremental then log ''Incremental builds enabled.''
      else bind (gets config) (\<lambda>cfg. emptyDirSync env (public_patterns cfg)))"

text \<open>Lines 546-557.\<close>
definition load_data :: "env \<Rightarrow> unit prog" where
  "load_data env =
     bind (gets config) (\<lambda>cfg. seq [
       try_catch
         (bind (attempt (loadDataFromFolder env (source_data cfg))) (\<lambda>d. modify (\<lambda>s. s\<lparr>data := d\<rparr>)))
         (\<lambda>ex. seq [
            log (''missing or malformed'' @ source_data cfg @ ''data.json  Pattern Lab may not work without this file.''),
            modify (\<lambda>s. s\<lparr>data := []\<rparr>)]),
       try_catch
         (bind (attempt (loadDataFromFile env (path_resolve env [source_data cfg, ''listitems''])))
            (\<lambda>d. modify (\<lambda>s. s\<lparr>listitems := d\<rparr>)))
         (\<lambda>ex. seq [
            log (''WARNING: missing or malformed '' @ source_data cfg @ ''listitems file.  Pattern Lab may not work without this file.''),
            modify (\<lambda>s. s\<lparr>listitems := []\<rparr>)])])"

definition essential_file_message :: string where
  "essential_file_message =
     ''ERROR: missing an essential file from [object Object]. Pattern Lab won't work without this file.''"

text \<open>Lines 558-568.\<close>
definition load_templates :: "env \<Rightarrow> unit prog" where
  "load_templates env =
     bind (gets config) (\<lambda>cfg.
     try_catch
       (seq [
          bind (readFileSync env (path_resolve env [general_header cfg])) (\<lambda>t. modify (\<lambda>s. s\<lparr>header := t\<rparr>)),
          bind (readFileSync env (path_resolve env [general_footer cfg])) (\<lambda>t. modify (\<lambda>s. s\<lparr>footer := t\<rparr>)),
          bind (readFileSync env (path_resolve env [patternSection_file cfg]))
            (\<lambda>t. modify (\<lambda>s. s\<lparr>patternSection := t\<rparr>)),
          bind (readFileSync env (path_resolve env [patternSectionSubtype_file cfg]))
            (\<lambda>t. modify (\<lambda>s. s\<lparr>patternSectionSubType := t\<rparr>)),
          bind (readFileSync env (path_resolve env [viewall_file cfg])) (\<lambda>t. modify (\<lambda>s. s\<lparr>viewAll := t\<rparr>))])
       (\<lambda>ex. seq [log ex, log essential_file_message, stop_with (Exit 1)]))"

definition setCacheBust :: "env \<Rightarrow> unit prog" where
  "setCacheBust env =
     bind (gets config) (\<lambda>cfg.
       if cacheBust cfg
       then seq [if_then (debug cfg) (log ''setting cacheBuster value for frontend assets.''),
                 modify (\<lambda>s. s\<lparr>cacheBuster := getTime env\<rparr>)]
       else modify (\<lambda>s. s\<lparr>cacheBuster := 0\<rparr>))"

text \<open>Lines 569-578.\<close>
definition reset_globals :: "env \<Rightarrow> unit prog" where
  "reset_globals env = seq [
     modify (\<lambda>s. s\<lparr>patterns := [], subtypePatterns := [], partials := []\<rparr>),
     modify (\<lambda>s. s\<lparr>data := obj_put (data s) ''link'' (JObj [])\<rparr>),
     setCacheBust env,
     ext env combine_listItems,
     emit env ''patternlab-build-global-data-end'' None]"

text \<open>Lines 514-578, the part of buildPatterns that runs before the promise of the
  first traversal is created; the value is incrementalBuildsEnabled.\<close>
definition buildPatterns_setup :: "env \<Rightarrow> bool \<Rightarrow> bool prog" where
  "buildPatterns_setup env deletePatternDir =
     bind (load_graph env deletePatternDir) (\<lambda>graphNeedsUpgrade.
     let incremental = incrementalBuildsEnabled deletePatternDir graphNeedsUpgrade in
     bind (seq [clear_or_keep env incremental, load_data env, load_templates env, reset_globals env])
       (\<lambda>_. ret incremental))"

text \<open>Lines 583-592.\<close>
definition expand_patterns :: "env \<Rightarrow> unit prog" where
  "expand_patterns env = seq [
     emit env ''patternlab-pattern-iteration-end'' None,
     ext env parse_data_links,
     bind (gets config) (\<lambda>cfg. processAllPatternsRecursive env (source_patterns cfg))]"

text \<open>Lines 601-612; the value is the effective head.\<close>
definition choose_head :: "env \<Rightarrow> string prog" where
  "choose_head env =
     bind (gets (\<lambda>s. case userHead s of
                      Some h \<Rightarrow> (if h \<noteq> [] then h else header s)
                    | None \<Rightarrow> header s)) (\<lambda>head.
     bind (gets (\<lambda>s. (header s, cacheBuster s))) (\<lambda>(hd, cb).
     bind (attempt (renderPattern env (Template hd) (JObj [(''cacheBuster'', JNum cb)]))) (\<lambda>h.
     bind (modify (\<lambda>s. s\<lparr>data := obj_put (data s) ''patternLabHead'' (JStr h)\<rparr>)) (\<lambda>_.
     ret head))))"

definition graph_sync_logged :: "env \<Rightarrow> string list prog" where
  "graph_sync_logged env = (\<lambda>s.
     case graph_sync env s of
       (Inr ns, s1) \<Rightarrow> (Ok ns, s1, [Ext graph_sync_call])
     | (Inl e, s1) \<Rightarrow> (Stop (Throw e), s1, [Ext graph_sync_call]))"

text \<open>Lines 614-639; the value is patternsToBuild.\<close>
definition patternsToBuild :: "env \<Rightarrow> bool \<Rightarrow> pref list prog" where
  "patternsToBuild env incremental =
     (if incremental
      then bind (graph_sync_logged env) (\<lambda>ns.
           bind (seq (map (\<lambda>n. log (''[Deleted/Moved] '' @ n)) ns)) (\<lambda>_.
           bind (ext env (mark_modified_patterns (getTime env))) (\<lambda>_.
           bind (gets id) (\<lambda>s. attempt (graph_compileOrder env s)))))
      else bind (gets patterns) (\<lambda>ps.
           bind (seq (map (\<lambda>p. update_pattern p (\<lambda>q. q\<lparr>compileState := NEEDS_REBUILD\<rparr>)) ps))
             (\<lambda>_. ret ps)))"

text \<open>Line 642.\<close>
definition render_all :: "env \<Rightarrow> pref list \<Rightarrow> string \<Rightarrow> unit prog" where
  "render_all env ps head =
     seq (map (\<lambda>pattern. bind (renderSinglePattern env pattern head) (\<lambda>_. ret ())) ps)"

text \<open>Lines 644-652.\<close>
definition store_and_export :: "env \<Rightarrow> unit prog" where
  "store_and_export env =
     bind (gets config) (\<lambda>cfg. seq [
       ext env storeToFile,
       if_then (exportToGraphViz cfg) (seq [
         ext env (exportToDot ''dependencyGraph.dot''),
         bind (gets config) (\<lambda>c. log (''Exported pattern graph to ''
                @ path_join env [public_root c, ''dependencyGraph.dot'']))]),
       ext env export_patterns])"

text \<open>Lines 583-652, the callback that runs once the first traversal is over.\<close>
definition buildPatterns_render :: "env \<Rightarrow> bool \<Rightarrow> unit prog" where
  "buildPatterns_render env incremental =
     bind (seq [expand_patterns env, processHeadPattern env, processFootPattern env,
                ext env cascade_pattern_states]) (\<lambda>_.
     bind (choose_head env) (\<lambda>head.
     bind (patternsToBuild env incremental) (\<lambda>ps.
     seq [render_all env ps head, store_and_export env])))"

definition buildPatterns :: "env \<Rightarrow> bool \<Rightarrow> unit prog" where
  "buildPatterns env deletePatternDir =
     bind (buildPatterns_setup env deletePatternDir) (\<lambda>incremental.
       promise_catch
         (promise_then
            (bind (gets config) (\<lambda>cfg. processAllPatternsIterative env (source_patterns cfg)))
            (\<lambda>_. buildPatterns_render env incremental))
         (\<lambda>err. log (''Error in buildPatterns(): '' @ err)))"

subsection \<open>The public entry points\<close>

definition busy_message :: string where
  "busy_message = ''Pattern Lab is busy building a previous run - returning early.''"

definition printDebug :: "env \<Rightarrow> unit prog" where
  "printDebug env =
     bind (gets config) (\<lambda>cfg.
       if_then (debug cfg) (seq [
         log ''writing patternlab debug file to ./patternlab.json'',
         bind (gets (debug_dump env)) (\<lambda>d. outputFileSync env ''./patternlab.json'' d)]))"

definition register_listeners :: "unit prog" where
  "register_listeners = seq [
     modify (\<lambda>s. s\<lparr>listeners := listeners s @ [(''patternlab-pattern-change'', Rebuild False)]\<rparr>),
     modify (\<lambda>s. s\<lparr>listeners := listeners s @ [(''patternlab-global-change'', Rebuild True)]\<rparr>)]"

definition build :: "env \<Rightarrow> options \<Rightarrow> unit prog" where
  "build env options = (\<lambda>s.
     if isBusy s then log busy_message s
     else bind (modify (\<lambda>s. s\<lparr>isBusy := True\<rparr>)) (\<lambda>_.
          promise_then (buildPatterns env (cleanPublic options)) (\<lambda>_. seq [
            ext env buildFrontend,
            ext env (copyAssets options),
            register_listeners,
            printDebug env,
            modify (\<lambda>s. s\<lparr>isBusy := False\<rparr>),
            ext env callback])) s)"

definition patternsonly :: "env \<Rightarrow> options \<Rightarrow> unit prog" where
  "patternsonly env options = (\<lambda>s.
     if isBusy s then log busy_message s
     else bind (modify (\<lambda>s. s\<lparr>isBusy := True\<rparr>)) (\<lambda>_.
          promise_then (buildPatterns env (cleanPublic options)) (\<lambda>_. seq [
            printDebug env,
            modify (\<lambda>s. s\<lparr>isBusy := False\<rparr>),
            ext env callback])) s)"

subsection \<open>Properties of programs\<close>

text \<open>\<open>keeps f m\<close>: running m leaves the part f of the context as it was.
  \<open>acts P m\<close>: every action m performs satisfies P.
  \<open>env_keeps f env\<close>: the collaborators that are handed the context leave f alone.\<close>
definition keeps :: "(patternlab \<Rightarrow> 'x) \<Rightarrow> 'a prog \<Rightarrow> bool" where
  "keeps f m = (\<forall>s r s' t. m s = (r, s', t) \<longrightarrow> f s' = f s)"

definition acts :: "(action \<Rightarrow> bool) \<Rightarrow> 'a prog \<Rightarrow> bool" where
  "acts P m = (\<forall>s r s' t. m s = (r, s', t) \<longrightarrow> list_all P t)"

definition env_keeps :: "(patternlab \<Rightarrow> 'x) \<Rightarrow> env \<Rightarrow> bool" where
  "env_keeps f env =
     ((\<forall>c s. f (snd (collab env c s)) = f s) \<and>
      (\<forall>p s. f (snd (decomposePattern env p s)) = f s) \<and>
      (\<forall>s. f (snd (graph_sync env s)) = f s))"

fun is_write :: "action \<Rightarrow> bool" where
  "is_write (FsOutputFile p c) = True"
| "is_write a = False"

fun is_emptyDir :: "action \<Rightarrow> bool" where
  "is_emptyDir (FsEmptyDir p) = True"
| "is_emptyDir a = False"

fun is_fs :: "action \<Rightarrow> bool" where
  "is_fs (FsEmptyDir p) = True"
| "is_fs (FsReadFile p) = True"
| "is_fs (FsOutputFile p c) = True"
| "is_fs a = False"

text \<open>Actions that neither write a file, nor clear a directory, nor announce a pattern
  on the event bus.\<close>
fun quiet :: "action \<Rightarrow> bool" where
  "quiet (Log m) = True"
| "quiet (Emit n None) = True"
| "quiet (Emit n (Some p)) = False"
| "quiet (FsReadFile p) = True"
| "quiet (Ext c) = True"
| "quiet (FsEmptyDir p) = False"
| "quiet (FsOutputFile p c) = False"

text \<open>The part of the context that only build and patternsonly assign.\<close>
definition session :: "patternlab \<Rightarrow> bool \<times> (string \<times> handler) list" where
  "session s = (isBusy s, listeners s)"

named_theorems keeps_intros
named_theorems acts_intros

text \<open>\<open>ensures m Q\<close>: whenever m returns, the context satisfies Q.\<close>
definition ensures :: "'a prog \<Rightarrow> (patternlab \<Rightarrow> bool) \<Rightarrow> bool" where
  "ensures m Q = (\<forall>s x s' t. m s = (Ok x, s', t) \<longrightarrow> Q s')"

named_theorems ensures_skip

text \<open>Reading a JSON object: the value under a key, and the keys in order.\<close>
fun field :: "json \<Rightarrow> string \<Rightarrow> json option" where
  "field (JObj kvs) k = map_of kvs k"
| "field j k = None"

fun keys :: "json \<Rightarrow> string list" where
  "keys (JObj kvs) = map fst kvs"
| "keys j = []"

text \<open>The compile state of a pattern as its Pattern object and as its graph node hold it.\<close>
definition compile_states :: "pref \<Rightarrow> patternlab \<Rightarrow> CompileState \<times> CompileState" where
  "compile_states p s = (compileState (heap s p), node_compileState (graph s) p)"

text \<open>The test at the head of renderSinglePattern: the pattern is to be rendered.\<close>
definition render_gate :: "pref \<Rightarrow> patternlab \<Rightarrow> bool" where
  "render_gate p s = (isPattern (heap s p) \<and> compileState (heap s p) \<noteq> CLEAN)"

text \<open>The first action of a rendering of p; renderSinglePattern performs it whenever it
  gets past its test, whatever happens later.\<close>
definition render_start :: "pref \<Rightarrow> action" where
  "render_start p = Emit ''patternlab-pattern-before-data-merge'' (Some p)"

text \<open>Follows the spec's words (section 4.5), to compare with the formatters that
  writePatternFiles selects: with beautification enabled a variant passes through the
  engine's formatter for that variant if supplied, else through the default
  pretty-printer; with beautification disabled the content is written verbatim.\<close>
definition formatted ::
  "env \<Rightarrow> config \<Rightarrow> (string \<Rightarrow> Pattern \<Rightarrow> string) option \<Rightarrow> string \<Rightarrow> Pattern \<Rightarrow> string" where
  "formatted env cfg engine_formatter content p =
     (if cleanOutputHtml cfg
      then (case engine_formatter of Some f \<Rightarrow> f content p | None \<Rightarrow> cleanHtml env content)
      else content)"

text \<open>The call of fs.outputFileSync for an output file descriptor.\<close>
definition write_action :: "path \<times> string \<Rightarrow> action" where
  "write_action f = FsOutputFile (fst f) (snd f)"

text \<open>The action the walk's callback performs for an entry, the action of a process
  step, and the actions that are process steps.\<close>
definition entry_action :: "env \<Rightarrow> path \<Rightarrow> exn + path \<Rightarrow> action" where
  "entry_action env patterns_dir entry =
     (case entry of
        Inl err \<Rightarrow> Log (''error in processAllPatternsIterative(): '' @ err)
      | Inr file \<Rightarrow> Ext (load_pattern_iterative (path_relative env patterns_dir file)))"

definition process_action :: "pref \<Rightarrow> action" where
  "process_action p = Ext (process_pattern_iterative p)"

fun is_process :: "action \<Rightarrow> bool" where
  "is_process (Ext (process_pattern_iterative p)) = True"
| "is_process a = False"

text \<open>Builds run one after the other in one session, each to the settling of its
  promise.\<close>
fun builds :: "env \<Rightarrow> options list \<Rightarrow> unit prog" where
  "builds env [] = ret ()"
| "builds env (options # rest) = bind (build env options) (\<lambda>_. builds env rest)"

text \<open>The handlers an emission of the event calls: all those registered under its name,
  in registration order.\<close>
definition fired :: "string \<Rightarrow> patternlab \<Rightarrow> handler list" where
  "fired name s = map snd (filter (\<lambda>(n, h). n = name) (listeners s))"

text \<open>Lines 695-709, the body of a registered handler.\<close>
definition on_change :: "env \<Rightarrow> options \<Rightarrow> handler \<Rightarrow> unit prog" where
  "on_change env options h =
     (case h of Rebuild cp \<Rightarrow>
        (\<lambda>s. if \<not> isBusy s then build env (options\<lparr>cleanPublic := cp\<rparr>) s else ret () s))"

text \<open>\<open>stops P m\<close>: whenever m does not return, the way it ends satisfies P.
  \<open>settled\<close>: every way of ending but a rejected promise.\<close>
definition stops :: "(stop \<Rightarrow> bool) \<Rightarrow> 'a prog \<Rightarrow> bool" where
  "stops P m = (\<forall>s k s' t. m s = (Stop k, s', t) \<longrightarrow> P k)"

fun settled :: "stop \<Rightarrow> bool" where
  "settled (Reject e) = False"
| "settled k = True"

named_theorems stops_intros

text \<open>Lines 546-655, what buildPatterns does after the output directory has been
  cleared or kept.\<close>
definition build_rest :: "env \<Rightarrow> bool \<Rightarrow> unit prog" where
  "build_rest env incremental =
     bind (seq [load_data env, load_templates env, reset_globals env]) (\<lambda>_.
       promise_catch
         (promise_then
            (bind (gets config) (\<lambda>cfg. processAllPatternsIterative env (source_patterns cfg)))
            (\<lambda>_. buildPatterns_render env incremental))
         (\<lambda>err. log (''Error in buildPatterns(): '' @ err)))"

text \<open>All five structural templates named by the configuration can be read.\<close>
definition templates_readable :: "env \<Rightarrow> config \<Rightarrow> bool" where
  "templates_readable env cfg =
     list_all (\<lambda>f. \<not> isl (fs_readFileSync env (path_resolve env [f])))
       [general_header cfg, general_footer cfg, patternSection_file cfg,
        patternSectionSubtype_file cfg, viewall_file cfg]"

text \<open>Actions of a rendering: a file is written, or an event about a pattern is emitted.\<close>
fun renders :: "action \<Rightarrow> bool" where
  "renders (FsOutputFile p c) = True"
| "renders (Emit n (Some p)) = True"
| "renders a = False"

subsection \<open>An example session\<close>

text \<open>One pattern, 00-atoms/button.mustache, with a mustache engine that supplies no
  formatter; every collaborator succeeds, and loading the file registers the pattern.\<close>
definition ex_config :: config where
  "ex_config = \<lparr>cleanOutputHtml = False, cacheBust = False, debug = False,
     exportToGraphViz = False, source_data = ''source/_data'', source_meta = ''source/_meta'',
     source_patterns = ''source/_patterns'', general_header = ''general-header.mustache'',
     general_footer = ''general-footer.mustache'', patternSection_file = ''patternSection.mustache'',
     patternSectionSubtype_file = ''patternSectionSubtype.mustache'',
     viewall_file = ''viewall.mustache'', public_patterns = ''public/patterns'',
     public_root = ''public''\<rparr>"

definition ex_button :: Pattern where
  "ex_button = \<lparr>relPath = ''00-atoms/button.mustache'', isPattern = True, isMetaPattern = False,
     compileState = NEEDS_REBUILD, template = ''<button>{{label}}</button>'',
     extendedTemplate = ''<button>{{label}}</button>'', lineage = [],
     lineageR = [JStr ''molecules-form''], patternLineages = [], patternLineageExists = False,
     patternLineagesR = [], patternLineageRExists = False, patternLineageEExists = False,
     jsonFileData = [], pattern_header = [], patternPartialCode = [], patternData = [],
     extraOutput = [(''title'', JStr ''Button''), (''note'', JStr ''primary'')],
     allMarkdown = [(''state'', JStr ''inprogress''), (''markdown'', JStr ''text'')],
     patternDescExists = False, patternDesc = [], patternGroup = ''atoms'',
     patternSubGroup = ''atoms'', fileExtension = ''.mustache'', patternName = ''Button'',
     patternPartial = ''atoms-button'', patternState = ''inprogress'', engine = ''mustache''\<rparr>"

definition ex_graph :: PatternGraph where
  "ex_graph = \<lparr>version = 1, node_compileState = (\<lambda>p. NEEDS_REBUILD)\<rparr>"

definition ex_ctx :: patternlab where
  "ex_ctx = \<lparr>config = ex_config, isBusy = False, graph = ex_graph, data = [], listitems = [],
     header = [], footer = [], patternSection = [], patternSectionSubType = [], viewAll = [],
     userHead = None, userFoot = None, patterns = [], heap = (\<lambda>p. ex_button),
     subtypePatterns = [], partials = [], cacheBuster = 0, listeners = []\<rparr>"

definition ex_engine :: Engine where
  "ex_engine = \<lparr>engineName = ''mustache'', renderedCodeFormatter = None,
     rawTemplateCodeFormatter = None, markupOnlyCodeFormatter = None, addOutputFiles = None\<rparr>"

definition ex_collab :: "call \<Rightarrow> patternlab \<Rightarrow> exn option \<times> patternlab" where
  "ex_collab c s =
     (case c of
        load_pattern_iterative f \<Rightarrow> (None, s\<lparr>patterns := patterns s @ [0]\<rparr>)
      | _ \<Rightarrow> (None, s))"

definition ex_render :: "render_arg \<Rightarrow> json \<Rightarrow> exn + string" where
  "ex_render a d =
     Inr (case a of Template t \<Rightarrow> t | PatternObj p \<Rightarrow> extendedTemplate p | Undefined \<Rightarrow> [])"

definition ex_failing_render :: "render_arg \<Rightarrow> json \<Rightarrow> exn + string" where
  "ex_failing_render a d =
     (case a of PatternObj p \<Rightarrow> Inl ''unclosed tag'' | _ \<Rightarrow> ex_render a d)"

definition ex_join :: "path list \<Rightarrow> path" where
  "ex_join ps = (case ps of [] \<Rightarrow> [] | p # qs \<Rightarrow> p @ concat (map (\<lambda>q. ''/'' @ q) qs))"

definition ex_env :: env where
  "ex_env = \<lparr>path_resolve = ex_join, path_join = ex_join,
     path_relative = (\<lambda>dir file. drop (Suc (length dir)) file), getTime = 1500000000000,
     fs_readFileSync = (\<lambda>p. Inr p), fs_emptyDirSync = (\<lambda>p. None),
     fs_outputFileSync = (\<lambda>p c. None), JSON_stringify = (\<lambda>j. ''{}''),
     debug_dump = (\<lambda>s. ''{}''), cleanHtml = (\<lambda>c. c),
     dive = (\<lambda>d. [Inr (d @ ''/00-atoms/button.mustache'')]),
     diveSync = (\<lambda>d. [Inr (d @ ''/00-atoms/button.mustache'')]),
     collab = ex_collab, PatternGraph_empty = ex_graph,
     PatternGraph_loadFromFile = (\<lambda>s. Inr ex_graph),
     PatternGraph_checkVersion = (\<lambda>g. version g = 1),
     graph_sync = (\<lambda>s. (Inr [], s)),
     graph_compileOrder = (\<lambda>s. Inr (filter (\<lambda>p. compileState (heap s p) \<noteq> CLEAN) (patterns s))),
     loadDataFromFolder = (\<lambda>p. Inr []), loadDataFromFile = (\<lambda>p. Inr []),
     jsonCopy = (\<lambda>d. Inr d),
     merge = (\<lambda>a b. Object_assign (case a of Some o1 \<Rightarrow> o1 | None \<Rightarrow> []) b),
     new_Pattern = (\<lambda>p s. Inr (ex_button\<lparr>relPath := p\<rparr>)),
     decomposePattern = (\<lambda>p s. (Inr (p\<lparr>extendedTemplate := template p\<rparr>), s)),
     renderPattern = ex_render, getPatternLink = (\<lambda>p s type. patternPartial p @ ''.'' @ type),
     engines = (\<lambda>n. ex_engine)\<rparr>"

definition ex_options :: options where
  "ex_options = \<lparr>cleanPublic = True, watch = False\<rparr>"

text \<open>The same session, except that expanding the links in the data throws.\<close>
definition ex_bad_links :: "call \<Rightarrow> patternlab \<Rightarrow> exn option \<times> patternlab" where
  "ex_bad_links c s =
     (case c of parse_data_links \<Rightarrow> (Some ''bad link'', s) | _ \<Rightarrow> ex_collab c s)"

text \<open>A file system in which one file is missing.\<close>
definition ex_missing :: "path \<Rightarrow> path \<Rightarrow> exn + string" where
  "ex_missing file p = (if p = file then Inl ''ENOENT: no such file or directory'' else Inr p)"

section \<open>Running programs\<close>

lemma ret_run [simp]: "ret x s = (Ok x, s, [])"
  by (simp add: ret_def)

lemma gets_run [simp]: "gets f s = (Ok (f s), s, [])"
  by (simp add: gets_def)

lemma modify_run [simp]: "modify f s = (Ok (), f s, [])"
  by (simp add: modify_def)

lemma tell_run [simp]: "tell a s = (Ok (), s, [a])"
  by (simp add: tell_def)

lemma log_run [simp]: "log m s = (Ok (), s, [Log m])"
  by (simp add: log_def)

lemma stop_with_run [simp]: "stop_with k s = (Stop k, s, [])"
  by (simp add: stop_with_def)

lemma bind_Ok: "m s = (Ok x, s1, t1) \<Longrightarrow> f x s1 = (r, s2, t2) \<Longrightarrow> bind m f s = (r, s2, t1 @ t2)"
  by (simp add: bind_def)

lemma bind_Stop: "m s = (Stop k, s1, t1) \<Longrightarrow> bind m f s = (Stop k, s1, t1)"
  by (simp add: bind_def)

section \<open>Frame rules\<close>

lemma keepsD: "keeps f m \<Longrightarrow> m s = (r, s', t) \<Longrightarrow> f s' = f s"
  by (simp add: keeps_def)

lemma keeps_ret [keeps_intros]: "keeps f (ret x)"
  by (simp add: keeps_def)

lemma keeps_gets [keeps_intros]: "keeps f (gets g)"
  by (simp add: keeps_def)

lemma keeps_tell [keeps_intros]: "keeps f (tell a)"
  by (simp add: keeps_def)

lemma keeps_log [keeps_intros]: "keeps f (log m)"
  by (simp add: keeps_def)

lemma keeps_stop_with [keeps_intros]: "keeps f (stop_with k)"
  by (simp add: keeps_def)

lemma keeps_modify: "(\<And>s. f (h s) = f s) \<Longrightarrow> keeps f (modify h)"
  by (simp add: keeps_def)

lemma keeps_bind [keeps_intros]: "keeps f m \<Longrightarrow> (\<And>x. keeps f (g x)) \<Longrightarrow> keeps f (bind m g)"
  unfolding keeps_def bind_def
  by (fastforce split: prod.splits res.splits)

lemma keeps_seq: "list_all (keeps f) ms \<Longrightarrow> keeps f (seq ms)"
  by (induction ms) (simp_all add: keeps_ret keeps_bind)

lemma keeps_seq_map: "(\<And>x. keeps f (g x)) \<Longrightarrow> keeps f (seq (map g xs))"
  by (rule keeps_seq) (simp add: list_all_iff)

lemma keeps_if_then [keeps_intros]: "keeps f m \<Longrightarrow> keeps f (if_then b m)"
  by (simp add: if_then_def keeps_ret)

lemma keeps_attempt [keeps_intros]: "keeps f (attempt r)"
  by (cases r) (simp_all add: attempt_def keeps_stop_with keeps_ret)

lemma keeps_try_catch [keeps_intros]:
  "keeps f m \<Longrightarrow> (\<And>e. keeps f (h e)) \<Longrightarrow> keeps f (try_catch m h)"
  unfolding keeps_def try_catch_def
  by (fastforce split: prod.splits res.splits stop.splits)

lemma keeps_in_callback [keeps_intros]: "keeps f m \<Longrightarrow> keeps f (in_callback m)"
  unfolding keeps_def in_callback_def
  by (fastforce split: prod.splits res.splits stop.splits)

lemma keeps_in_walk_callback [keeps_intros]: "keeps f m \<Longrightarrow> keeps f (in_walk_callback m)"
  unfolding keeps_def in_walk_callback_def
  by (fastforce split: prod.splits res.splits stop.splits)

lemma keeps_promise_then [keeps_intros]:
  "keeps f m \<Longrightarrow> (\<And>x. keeps f (g x)) \<Longrightarrow> keeps f (promise_then m g)"
  by (simp add: promise_then_def keeps_bind keeps_in_callback)

lemma keeps_promise_catch [keeps_intros]:
  "keeps f m \<Longrightarrow> (\<And>e. keeps f (h e)) \<Longrightarrow> keeps f (promise_catch m h)"
  unfolding keeps_def promise_catch_def in_callback_def
  by (fastforce split: prod.splits res.splits stop.splits)

lemma keeps_ext [keeps_intros]: "env_keeps f env \<Longrightarrow> keeps f (ext env c)"
  unfolding keeps_def ext_def env_keeps_def
  by (auto split: prod.splits option.splits) (metis snd_conv)+

lemma keeps_emit [keeps_intros]: "env_keeps f env \<Longrightarrow> keeps f (emit env n p)"
  unfolding keeps_def emit_def env_keeps_def
  by (auto split: prod.splits option.splits) (metis snd_conv)+

lemma keeps_decompose [keeps_intros]: "env_keeps f env \<Longrightarrow> keeps f (decompose env p)"
  unfolding keeps_def decompose_def env_keeps_def
  by (auto split: prod.splits sum.splits) (metis snd_conv)+

lemma keeps_graph_sync_logged [keeps_intros]:
  "env_keeps f env \<Longrightarrow> keeps f (graph_sync_logged env)"
  unfolding keeps_def graph_sync_logged_def env_keeps_def
  by (auto split: prod.splits sum.splits) (metis snd_conv)+

lemma keeps_readFileSync [keeps_intros]: "keeps f (readFileSync env p)"
  by (simp add: readFileSync_def keeps_intros)

lemma keeps_emptyDirSync [keeps_intros]: "keeps f (emptyDirSync env p)"
  by (auto simp: emptyDirSync_def split: option.splits intro!: keeps_intros)

lemma keeps_outputFileSync [keeps_intros]: "keeps f (outputFileSync env p c)"
  by (auto simp: outputFileSync_def split: option.splits intro!: keeps_intros)

lemma keeps_cond:
  "keeps f m1 \<Longrightarrow> keeps f m2 \<Longrightarrow> keeps f (\<lambda>s. if C s then m1 s else m2 s)"
  by (simp add: keeps_def)

lemma keeps_if [keeps_intros]:
  "(b \<Longrightarrow> keeps f m1) \<Longrightarrow> (\<not> b \<Longrightarrow> keeps f m2) \<Longrightarrow> keeps f (if b then m1 else m2)"
  by simp

lemma keeps_case_prod [keeps_intros]:
  "(\<And>a b. keeps f (g a b)) \<Longrightarrow> keeps f (case x of (a, b) \<Rightarrow> g a b)"
  by (cases x) simp

lemma keeps_let [keeps_intros]: "keeps f (g x) \<Longrightarrow> keeps f (let y = x in g y)"
  by simp

lemma keeps_writePatternFiles: "keeps f (writePatternFiles env h p ft)"
  unfolding writePatternFiles_def
  by (intro keeps_intros keeps_seq) (simp add: list_all_iff keeps_intros split: prod.splits)

lemma keeps_merged_data: "keeps f (merged_data env p)"
  unfolding merged_data_def
  by (intro keeps_intros keeps_seq) (simp_all add: keeps_intros)

section \<open>Rules for the actions of a program\<close>

lemma actsD: "acts P m \<Longrightarrow> m s = (r, s', t) \<Longrightarrow> list_all P t"
  by (simp add: acts_def)

lemma acts_mono: "acts P m \<Longrightarrow> (\<And>a. P a \<Longrightarrow> Q a) \<Longrightarrow> acts Q m"
  unfolding acts_def list_all_iff by blast

lemma acts_ret [acts_intros]: "acts P (ret x)"
  by (simp add: acts_def)

lemma acts_gets [acts_intros]: "acts P (gets g)"
  by (simp add: acts_def)

lemma acts_modify [acts_intros]: "acts P (modify h)"
  by (simp add: acts_def)

lemma acts_stop_with [acts_intros]: "acts P (stop_with k)"
  by (simp add: acts_def)

lemma acts_tell [acts_intros]: "P a \<Longrightarrow> acts P (tell a)"
  by (auto simp: acts_def)

lemma acts_log [acts_intros]: "P (Log m) \<Longrightarrow> acts P (log m)"
  by (auto simp: acts_def)

lemma acts_bind [acts_intros]: "acts P m \<Longrightarrow> (\<And>x. acts P (g x)) \<Longrightarrow> acts P (bind m g)"
  unfolding acts_def bind_def
  by (fastforce split: prod.splits res.splits)

lemma acts_seq: "list_all (acts P) ms \<Longrightarrow> acts P (seq ms)"
  by (induction ms) (simp_all add: acts_ret acts_bind)

lemma acts_if_then [acts_intros]: "acts P m \<Longrightarrow> acts P (if_then b m)"
  by (simp add: if_then_def acts_ret)

lemma acts_attempt [acts_intros]: "acts P (attempt r)"
  by (cases r) (simp_all add: attempt_def acts_stop_with acts_ret)

lemma acts_try_catch [acts_intros]:
  "acts P m \<Longrightarrow> (\<And>e. acts P (h e)) \<Longrightarrow> acts P (try_catch m h)"
  unfolding acts_def try_catch_def
  by (fastforce split: prod.splits res.splits stop.splits)

lemma acts_in_callback [acts_intros]: "acts P m \<Longrightarrow> acts P (in_callback m)"
  unfolding acts_def in_callback_def
  by (fastforce split: prod.splits res.splits stop.splits)

lemma acts_in_walk_callback [acts_intros]: "acts P m \<Longrightarrow> acts P (in_walk_callback m)"
  unfolding acts_def in_walk_callback_def
  by (fastforce split: prod.splits res.splits stop.splits)

lemma acts_promise_then [acts_intros]:
  "acts P m \<Longrightarrow> (\<And>x. acts P (g x)) \<Longrightarrow> acts P (promise_then m g)"
  by (simp add: promise_then_def acts_bind acts_in_callback)

lemma acts_promise_catch [acts_intros]:
  "acts P m \<Longrightarrow> (\<And>e. acts P (h e)) \<Longrightarrow> acts P (promise_catch m h)"
  unfolding acts_def promise_catch_def in_callback_def
  by (fastforce split: prod.splits res.splits stop.splits)

lemma acts_ext [acts_intros]: "P (Ext c) \<Longrightarrow> acts P (ext env c)"
  unfolding acts_def ext_def
  by (auto split: prod.splits option.splits)

lemma acts_emit [acts_intros]: "P (Emit n p) \<Longrightarrow> acts P (emit env n p)"
  unfolding acts_def emit_def
  by (auto split: prod.splits option.splits)

lemma acts_decompose [acts_intros]:
  "P (Ext (decomposePattern_of (relPath p))) \<Longrightarrow> acts P (decompose env p)"
  unfolding acts_def decompose_def
  by (auto split: prod.splits sum.splits)

lemma acts_graph_sync_logged [acts_intros]:
  "P (Ext graph_sync_call) \<Longrightarrow> acts P (graph_sync_logged env)"
  unfolding acts_def graph_sync_logged_def
  by (auto split: prod.splits sum.splits)

lemma acts_readFileSync [acts_intros]: "P (FsReadFile p) \<Longrightarrow> acts P (readFileSync env p)"
  by (simp add: readFileSync_def acts_intros)

lemma acts_emptyDirSync [acts_intros]: "P (FsEmptyDir p) \<Longrightarrow> acts P (emptyDirSync env p)"
  by (auto simp: emptyDirSync_def split: option.splits intro!: acts_intros)

lemma acts_outputFileSync [acts_intros]: "P (FsOutputFile p c) \<Longrightarrow> acts P (outputFileSync env p c)"
  by (auto simp: outputFileSync_def split: option.splits intro!: acts_intros)

lemma acts_cond:
  "acts P m1 \<Longrightarrow> acts P m2 \<Longrightarrow> acts P (\<lambda>s. if C s then m1 s else m2 s)"
  by (simp add: acts_def)

lemma acts_if [acts_intros]:
  "(b \<Longrightarrow> acts P m1) \<Longrightarrow> (\<not> b \<Longrightarrow> acts P m2) \<Longrightarrow> acts P (if b then m1 else m2)"
  by simp

lemma acts_case_prod [acts_intros]:
  "(\<And>a b. acts P (g a b)) \<Longrightarrow> acts P (case x of (a, b) \<Rightarrow> g a b)"
  by (cases x) simp

lemma acts_let [acts_intros]: "acts P (g x) \<Longrightarrow> acts P (let y = x in g y)"
  by simp

lemma acts_seq_map: "(\<And>x. acts P (g x)) \<Longrightarrow> acts P (seq (map g xs))"
  by (rule acts_seq) (simp add: list_all_iff)

lemma quiet_load_graph: "acts quiet (load_graph env d)"
  unfolding load_graph_def loadPatternGraph_def
  by (intro acts_intros acts_seq) (simp_all add: acts_intros acts_seq)

lemma quiet_load_data: "acts quiet (load_data env)"
  unfolding load_data_def
  by (intro acts_intros acts_seq) (simp_all add: acts_intros acts_seq)

lemma quiet_load_templates: "acts quiet (load_templates env)"
  unfolding load_templates_def
  by (intro acts_intros acts_seq) (simp_all add: acts_intros acts_seq)

lemma quiet_reset_globals: "acts quiet (reset_globals env)"
  unfolding reset_globals_def setCacheBust_def
  by (intro acts_intros acts_seq) (simp_all add: acts_intros acts_seq)

lemma quiet_iterative: "acts quiet (processAllPatternsIterative env d)"
  unfolding processAllPatternsIterative_def load_all_def process_all_def load_entry_def
  by (intro acts_intros acts_seq_map) (auto split: sum.splits intro!: acts_intros)

lemma quiet_recursive: "acts quiet (processAllPatternsRecursive env d)"
  unfolding processAllPatternsRecursive_def recursive_entry_def
  by (intro acts_intros acts_seq_map) (auto split: sum.splits intro!: acts_intros)

lemma quiet_expand: "acts quiet (expand_patterns env)"
  unfolding expand_patterns_def
  by (intro acts_intros acts_seq) (simp_all add: acts_intros quiet_recursive)

lemma quiet_head: "acts quiet (processHeadPattern env)"
  unfolding processHeadPattern_def
  by (intro acts_intros acts_seq) (simp_all add: acts_intros)

lemma quiet_foot: "acts quiet (processFootPattern env)"
  unfolding processFootPattern_def
  by (intro acts_intros acts_seq) (simp_all add: acts_intros)

lemma quiet_choose_head: "acts quiet (choose_head env)"
  unfolding choose_head_def
  by (intro acts_intros acts_seq)

lemma quiet_patternsToBuild: "acts quiet (patternsToBuild env incr)"
  unfolding patternsToBuild_def update_pattern_def
  by (intro acts_intros acts_seq_map) (simp_all add: acts_intros)

lemma quiet_store: "acts quiet (store_and_export env)"
  unfolding store_and_export_def
  by (intro acts_intros acts_seq) (simp_all add: acts_intros acts_seq)

section \<open>The busy guard\<close>

text \<open>C2. While the context's isBusy flag is true, build and patternsonly only log the
  busy message: the context is returned as it was, no other action (in particular no
  call of fs) is performed, and the promise returned is already fulfilled.\<close>
theorem busy_build_is_dropped:
  "isBusy s \<Longrightarrow>
     build env options s = (Ok (), s, [Log busy_message]) \<and>
     patternsonly env options s = (Ok (), s, [Log busy_message]) \<and>
     list_all (\<lambda>a. \<not> is_fs a) (snd (snd (build env options s))) \<and>
     list_all (\<lambda>a. \<not> is_fs a) (snd (snd (patternsonly env options s)))"
  by (simp add: build_def patternsonly_def)

theorem busy_build_is_dropped_witness:
  "isBusy (ex_ctx\<lparr>isBusy := True\<rparr>) \<and>
   build ex_env ex_options (ex_ctx\<lparr>isBusy := True\<rparr>)
     = (Ok (), ex_ctx\<lparr>isBusy := True\<rparr>, [Log busy_message]) \<and>
   patternsonly ex_env ex_options (ex_ctx\<lparr>isBusy := True\<rparr>)
     = (Ok (), ex_ctx\<lparr>isBusy := True\<rparr>, [Log busy_message])"
  using busy_build_is_dropped [of "ex_ctx\<lparr>isBusy := True\<rparr>" ex_env ex_options] by simp

section \<open>Rules for what a program ensures on return\<close>

lemma ensuresD: "ensures m Q \<Longrightarrow> m s = (Ok x, s', t) \<Longrightarrow> Q s'"
  unfolding ensures_def by blast

lemma ensures_bind_last [ensures_skip]: "(\<And>x. ensures (g x) Q) \<Longrightarrow> ensures (bind m g) Q"
  unfolding ensures_def bind_def
  by (fastforce split: prod.splits res.splits)

lemma ensures_bind_first:
  "ensures m Q \<Longrightarrow> (\<And>x. keeps (\<lambda>s. s) (g x)) \<Longrightarrow> ensures (bind m g) Q"
  unfolding ensures_def bind_def keeps_def
  by (fastforce split: prod.splits res.splits)

lemma ensures_modify: "(\<And>s. Q (h s)) \<Longrightarrow> ensures (modify h) Q"
  by (simp add: ensures_def)

lemma ensures_let [ensures_skip]: "ensures (g x) Q \<Longrightarrow> ensures (let y = x in g y) Q"
  by simp

lemma ensures_case_prod [ensures_skip]:
  "(\<And>a b. ensures (g a b) Q) \<Longrightarrow> ensures (case x of (a, b) \<Rightarrow> g a b) Q"
  by (cases x) simp

lemma ensures_seq_Cons [ensures_skip]: "ensures (seq ms) Q \<Longrightarrow> ensures (seq (m # ms)) Q"
  by (simp add: ensures_bind_last)

lemma bind_assoc: "bind (bind m f) g = bind m (\<lambda>x. bind (f x) g)"
  by (rule ext) (simp add: bind_def split: prod.splits res.splits)

section \<open>The pattern metadata\<close>

lemma keys_obj_delete: "set (map fst (obj_delete k obj)) = set (map fst obj) - {k}"
  by (induction obj) (auto simp: obj_delete_def)

lemma extraOutput_dump_keys:
  "set (map fst (extraOutput_dump p)) \<inter> {''title'', ''state'', ''markdown''} = {}"
  unfolding extraOutput_dump_def keys_obj_delete by blast

lemma stored_patternData:
  "ensures (render_fragments env pattern head)
     (\<lambda>s. patternData (heap s pattern) = JSON_stringify env (patternData_object env (heap s pattern)))"
  unfolding render_fragments_def
  apply (rule ensures_skip, rule ensures_skip, rule ensures_skip, rule ensures_skip,
      rule ensures_skip, rule ensures_skip, rule ensures_skip, rule ensures_skip,
      rule ensures_skip)
  apply (rule ensures_bind_first)
   apply (simp add: update_pattern_def)
   apply (rule ensures_modify)
   apply (simp add: patternData_object_def extraOutput_dump_def)
  apply (intro keeps_intros keeps_merged_data)
  done

text \<open>C7. The object renderSinglePattern serialises into pattern.patternData has
  cssEnabled false; the forward lineage list under both patternLineages and lineage, the
  reverse one under both patternLineagesR and lineageR; a breadcrumb whose only key is
  patternType when the group equals the subgroup, and patternType with patternSubtype
  otherwise; the file extension without its first character, hence without its leading
  dot; and an extraOutput object with none of the keys title, state, markdown. When the
  rendering of the fragments returns, patternData holds the serialisation of that object
  for the pattern as it then is.\<close>
theorem patternData_contract:
  "field (patternData_object env p) ''cssEnabled'' = Some (JBool False) \<and>
   field (patternData_object env p) ''patternLineages'' = Some (JArr (patternLineages p)) \<and>
   field (patternData_object env p) ''lineage'' = Some (JArr (patternLineages p)) \<and>
   field (patternData_object env p) ''patternLineagesR'' = Some (JArr (patternLineagesR p)) \<and>
   field (patternData_object env p) ''lineageR'' = Some (JArr (patternLineagesR p)) \<and>
   (\<exists>crumb. field (patternData_object env p) ''patternBreadcrumb'' = Some crumb \<and>
      field crumb ''patternType'' = Some (JStr (patternGroup p)) \<and>
      (patternGroup p = patternSubGroup p \<longrightarrow> keys crumb = [''patternType'']) \<and>
      (patternGroup p \<noteq> patternSubGroup p \<longrightarrow>
         keys crumb = [''patternType'', ''patternSubtype''] \<and>
         field crumb ''patternSubtype'' = Some (JStr (patternSubGroup p)))) \<and>
   field (patternData_object env p) ''patternExtension'' = Some (JStr (drop 1 (fileExtension p))) \<and>
   (\<forall>ext. fileExtension p = CHR ''.'' # ext \<longrightarrow>
      field (patternData_object env p) ''patternExtension'' = Some (JStr ext)) \<and>
   (\<exists>extra. field (patternData_object env p) ''extraOutput'' = Some extra \<and>
      extra = JObj (extraOutput_dump p) \<and>
      ''title'' \<notin> set (keys extra) \<and> ''state'' \<notin> set (keys extra) \<and>
      ''markdown'' \<notin> set (keys extra)) \<and>
   ensures (render_fragments env pattern head)
     (\<lambda>s. patternData (heap s pattern) = JSON_stringify env (patternData_object env (heap s pattern)))"
  using extraOutput_dump_keys [of p] stored_patternData [of env pattern head]
  by (simp add: patternData_object_def)

theorem patternData_contract_witness:
  "patternGroup ex_button = patternSubGroup ex_button \<and>
   fileExtension ex_button = CHR ''.'' # ''mustache'' \<and>
   field (patternData_object ex_env ex_button) ''patternBreadcrumb''
     = Some (JObj [(''patternType'', JStr ''atoms'')]) \<and>
   field (patternData_object ex_env ex_button) ''patternExtension'' = Some (JStr ''mustache'') \<and>
   field (patternData_object ex_env ex_button) ''extraOutput''
     = Some (JObj [(''note'', JStr ''primary'')]) \<and>
   patternGroup (ex_button\<lparr>patternSubGroup := ''buttons''\<rparr>)
     \<noteq> patternSubGroup (ex_button\<lparr>patternSubGroup := ''buttons''\<rparr>) \<and>
   field (patternData_object ex_env (ex_button\<lparr>patternSubGroup := ''buttons''\<rparr>)) ''patternBreadcrumb''
     = Some (JObj [(''patternType'', JStr ''atoms''), (''patternSubtype'', JStr ''buttons'')])"
  using patternData_contract [of ex_env ex_button]
  by (simp add: ex_button_def patternData_object_def extraOutput_dump_def Object_assign_def
      obj_put_def obj_delete_def)

section \<open>Evaluating the example session\<close>

lemmas run_defs = bind_def try_catch_def in_callback_def in_walk_callback_def promise_then_def
  promise_catch_def ext_def emit_def attempt_def if_then_def readFileSync_def emptyDirSync_def
  outputFileSync_def update_pattern_def set_compileState_def writePatternFiles_def outputFiles_def
  makePath_def nullFormatter_def defaultFormatter_def or_else_def merged_data_def begin_render_def
  render_fragments_def write_files_def finish_render_def renderSinglePattern_def load_entry_def
  load_all_def process_all_def processAllPatternsIterative_def recursive_entry_def
  processAllPatternsRecursive_def decompose_def processHeadPattern_def processFootPattern_def
  loadPatternGraph_def incrementalBuildsEnabled_def load_graph_def clear_or_keep_def load_data_def
  load_templates_def setCacheBust_def reset_globals_def buildPatterns_setup_def expand_patterns_def
  choose_head_def graph_sync_logged_def patternsToBuild_def render_all_def store_and_export_def
  buildPatterns_render_def buildPatterns_def printDebug_def register_listeners_def build_def
  patternsonly_def

lemmas ex_defs = ex_env_def ex_ctx_def ex_config_def ex_button_def ex_graph_def ex_engine_def
  ex_collab_def ex_render_def ex_join_def ex_options_def

section \<open>The compile-state gate\<close>

lemma ret_bind: "bind (ret x) f = f x"
  by (rule ext) (simp add: bind_def split: prod.splits res.splits)

lemma keeps_update_pattern:
  "(\<And>s. f (s\<lparr>heap := (heap s)(p := g (heap s p))\<rparr>) = f s) \<Longrightarrow> keeps f (update_pattern p g)"
  by (simp add: update_pattern_def keeps_modify)

lemma renderSinglePattern_closed_gate:
  "\<not> render_gate p s \<Longrightarrow> renderSinglePattern env p head s = (Ok False, s, [])"
  by (simp add: renderSinglePattern_def render_gate_def)

lemma renderSinglePattern_open_gate:
  "render_gate p s \<Longrightarrow> renderSinglePattern env p head s =
     bind (begin_render env p) (\<lambda>_.
     bind (render_fragments env p head) (\<lambda>(headHTML, footerHTML).
     bind (write_files env p headHTML footerHTML) (\<lambda>_.
     bind (finish_render p) (\<lambda>_. ret True)))) s"
  by (simp add: renderSinglePattern_def render_gate_def)

lemma after_modify:
  "keeps f m \<Longrightarrow> bind (modify h) (\<lambda>_. m) s = (r, s', t) \<Longrightarrow> f s' = f (h s)"
  by (auto simp: bind_def keeps_def split: prod.splits)

lemma begin_render_trace: "begin_render env p s = (r, s', t) \<Longrightarrow> t = [render_start p]"
  unfolding begin_render_def
  by (auto simp: bind_def set_compileState_def update_pattern_def emit_def render_start_def
      split: prod.splits option.splits)

lemma begin_render_BUILDING:
  assumes "env_keeps (compile_states p) env" and "begin_render env p s = (r, s', t)"
  shows "compile_states p s' = (BUILDING, BUILDING)"
proof -
  have "keeps (compile_states p) (seq [
     update_pattern p (\<lambda>p. p\<lparr>patternLineages := lineage p\<rparr>),
     update_pattern p (\<lambda>p. p\<lparr>patternLineageExists := (length (lineage p) > 0)\<rparr>),
     update_pattern p (\<lambda>p. p\<lparr>patternLineagesR := lineageR p\<rparr>),
     update_pattern p (\<lambda>p. p\<lparr>patternLineageRExists := (length (lineageR p) > 0)\<rparr>),
     update_pattern p (\<lambda>p. p\<lparr>patternLineageEExists :=
       (patternLineageExists p \<or> patternLineageRExists p)\<rparr>),
     emit env ''patternlab-pattern-before-data-merge'' (Some p)])"
    using assms(1)
    by (intro keeps_seq) (simp add: keeps_intros keeps_update_pattern compile_states_def)
  from after_modify [OF this] assms(2) show ?thesis
    unfolding begin_render_def seq.simps(2) [of "set_compileState p BUILDING"] set_compileState_def
    by (fastforce simp: compile_states_def)
qed

lemma begin_render_keeps_gate:
  "q \<noteq> p \<Longrightarrow> env_keeps (render_gate q) env \<Longrightarrow> keeps (render_gate q) (begin_render env p)"
  unfolding begin_render_def set_compileState_def
  by (intro keeps_seq) (simp add: keeps_intros keeps_update_pattern keeps_modify render_gate_def)

lemma render_fragments_keeps_states: "keeps (compile_states p) (render_fragments env p head)"
  unfolding render_fragments_def
  by (intro keeps_intros keeps_merged_data keeps_update_pattern) (simp_all add: compile_states_def)

lemma render_fragments_keeps_gate: "keeps (render_gate q) (render_fragments env p head)"
  unfolding render_fragments_def
  by (intro keeps_intros keeps_merged_data keeps_update_pattern) (simp_all add: render_gate_def)

lemma write_files_keeps: "env_keeps f env \<Longrightarrow> keeps f (write_files env p h ft)"
  unfolding write_files_def
  by (intro keeps_seq) (simp add: keeps_intros keeps_writePatternFiles)

lemma finish_render_run:
  "finish_render p s =
     (Ok (), s\<lparr>heap := (heap s)(p := (heap s p)\<lparr>compileState := CLEAN\<rparr>),
               graph := (graph s)\<lparr>node_compileState := (node_compileState (graph s))(p := CLEAN)\<rparr>\<rparr>,
      [Log (''Built pattern: '' @ patternPartial (heap s p))])"
  by (simp add: finish_render_def bind_def set_compileState_def)

lemma finish_render_keeps_gate: "q \<noteq> p \<Longrightarrow> keeps (render_gate q) (finish_render p)"
  by (simp add: keeps_def finish_render_run render_gate_def)

text \<open>what a run of renderSinglePattern through an open gate can come to\<close>
lemma render_outcomes:
  assumes gate: "render_gate p s" and run: "renderSinglePattern env p head s = (r, s', t)"
  shows "(r = Ok True \<and> compile_states p s' = (CLEAN, CLEAN)) \<or>
         (\<exists>k. r = Stop k \<and>
            (env_keeps (compile_states p) env \<longrightarrow> compile_states p s' = (BUILDING, BUILDING)))"
proof -
  obtain r1 s1 t1 where b: "begin_render env p s = (r1, s1, t1)"
    by (cases "begin_render env p s")
  note B = begin_render_BUILDING [OF _ b]
  show ?thesis
  proof (cases r1)
    case (Stop k)
    with b gate run B show ?thesis
      by (auto simp: renderSinglePattern_open_gate bind_def)
  next
    case (Ok u)
    obtain r2 s2 t2 where f: "render_fragments env p head s1 = (r2, s2, t2)"
      by (cases "render_fragments env p head s1")
    from keepsD [OF render_fragments_keeps_states f] have F: "compile_states p s2 = compile_states p s1" .
    show ?thesis
    proof (cases r2)
      case (Stop k)
      with Ok b f gate run B F show ?thesis
        by (auto simp: renderSinglePattern_open_gate bind_def)
    next
      case hf: (Ok hf)
      obtain hh ff where hf2: "hf = (hh, ff)" by (cases hf)
      obtain r3 s3 t3 where w: "write_files env p hh ff s2 = (r3, s3, t3)"
        by (cases "write_files env p hh ff s2")
      have W: "env_keeps (compile_states p) env \<Longrightarrow> compile_states p s3 = compile_states p s2"
        using keepsD [OF write_files_keeps w] .
      show ?thesis
      proof (cases r3)
        case (Stop k)
        with Ok hf hf2 b f w gate run B F W show ?thesis
          by (auto simp: renderSinglePattern_open_gate bind_def)
      next
        case ok3: (Ok u3)
        with Ok hf hf2 b f w gate run show ?thesis
          by (auto simp: renderSinglePattern_open_gate bind_def finish_render_run compile_states_def)
      qed
    qed
  qed
qed



lemma acts_update_pattern [acts_intros]: "acts P (update_pattern p g)"
  by (simp add: update_pattern_def acts_intros)

lemma acts_set_compileState [acts_intros]: "acts P (set_compileState p c)"
  by (simp add: set_compileState_def acts_intros)

lemma acts_merged_data: "(\<And>m. P (Log m)) \<Longrightarrow> acts P (merged_data env p)"
  unfolding merged_data_def
  by (intro acts_intros acts_seq) (simp_all add: acts_intros)

lemma acts_writePatternFiles:
  "(\<And>f c. P (FsOutputFile f c)) \<Longrightarrow> acts P (writePatternFiles env h p ft)"
  unfolding writePatternFiles_def
  by (intro acts_intros acts_seq_map) (simp add: acts_intros split: prod.splits)

lemma acts_render_fragments: "(\<And>m. P (Log m)) \<Longrightarrow> acts P (render_fragments env p head)"
  unfolding render_fragments_def
  by (intro acts_intros acts_merged_data) 

lemma acts_finish_render: "(\<And>m. P (Log m)) \<Longrightarrow> acts P (finish_render p)"
  by (simp add: acts_def finish_render_run)

lemma after_begin_no_start:
  "acts (\<lambda>a. a \<noteq> render_start q)
     (bind (render_fragments env p head) (\<lambda>(headHTML, footerHTML).
      bind (write_files env p headHTML footerHTML) (\<lambda>_.
      bind (finish_render p) (\<lambda>_. ret True))))"
  unfolding write_files_def
  by (intro acts_intros acts_seq acts_render_fragments acts_finish_render)
     (simp_all add: acts_intros acts_writePatternFiles render_start_def)

lemma count_list_none: "list_all (\<lambda>a. a \<noteq> x) t \<Longrightarrow> count_list t x = 0"
  by (auto simp: count_list_0_iff list_all_iff)

lemma render_count:
  assumes "renderSinglePattern env q head s = (r, s', t)"
  shows "count_list t (render_start p) = (if q = p \<and> render_gate q s then 1 else 0)"
proof (cases "render_gate q s")
  case False
  with assms show ?thesis by (simp add: renderSinglePattern_closed_gate)
next
  case True
  obtain r1 s1 t1 where b: "begin_render env q s = (r1, s1, t1)"
    by (cases "begin_render env q s")
  then have t1: "t1 = [render_start q]" by (rule begin_render_trace)
  show ?thesis
  proof (cases r1)
    case (Stop k)
    with True assms b t1 show ?thesis
      by (auto simp: renderSinglePattern_open_gate bind_def render_start_def)
  next
    case (Ok u)
    obtain r2 s2 t2 where c: "bind (render_fragments env q head) (\<lambda>(headHTML, footerHTML).
      bind (write_files env q headHTML footerHTML) (\<lambda>_.
      bind (finish_render q) (\<lambda>_. ret True))) s1 = (r2, s2, t2)"
      by (metis prod_cases3)
    from actsD [OF after_begin_no_start c] have "count_list t2 (render_start p) = 0"
      by (rule count_list_none)
    moreover from True assms b Ok c have "t = t1 @ t2"
      by (simp add: renderSinglePattern_open_gate bind_def)
    ultimately show ?thesis using t1 True
      by (auto simp: render_start_def)
  qed
qed

lemma render_keeps_other_gate:
  assumes "q \<noteq> p" and "env_keeps (render_gate p) env"
  shows "keeps (render_gate p) (renderSinglePattern env q head)"
  unfolding renderSinglePattern_def
  using assms
  by (intro keeps_cond keeps_intros begin_render_keeps_gate render_fragments_keeps_gate
      write_files_keeps finish_render_keeps_gate) simp_all

lemma render_closes_gate:
  assumes "renderSinglePattern env p head s = (Ok b, s', t)"
  shows "\<not> render_gate p s'"
proof (cases "render_gate p s")
  case False
  with assms show ?thesis by (simp add: renderSinglePattern_closed_gate)
next
  case True
  from render_outcomes [OF True assms] show ?thesis
    by (simp add: compile_states_def render_gate_def)
qed

lemma render_all_Cons:
  "render_all env (q # ps) head =
     bind (renderSinglePattern env q head) (\<lambda>_. render_all env ps head)"
  by (simp add: render_all_def bind_assoc ret_bind)

lemma render_all_count:
  assumes "env_keeps (render_gate p) env"
  shows "render_all env ps head s = (r, s', t) \<Longrightarrow>
           count_list t (render_start p) \<le> (if render_gate p s then 1 else 0)"
proof (induction ps arbitrary: s r s' t)
  case Nil
  then show ?case by (simp add: render_all_def)
next
  case (Cons q ps)
  obtain r1 s1 t1 where one: "renderSinglePattern env q head s = (r1, s1, t1)"
    by (cases "renderSinglePattern env q head s")
  note c1 = render_count [OF one, of p]
  show ?case
  proof (cases r1)
    case (Stop k)
    with one Cons.prems have "t = t1"
      by (simp add: render_all_Cons bind_def)
    with c1 show ?thesis by auto
  next
    case (Ok b)
    obtain r2 s2 t2 where rest: "render_all env ps head s1 = (r2, s2, t2)"
      by (cases "render_all env ps head s1")
    from one Ok rest Cons.prems have t: "t = t1 @ t2"
      by (simp add: render_all_Cons bind_def)
    note c2 = Cons.IH [OF rest]
    show ?thesis
    proof (cases "q = p")
      case True
      from render_closes_gate [OF one [unfolded Ok True]] have "\<not> render_gate p s1" .
      with c1 c2 t True show ?thesis by auto
    next
      case False
      from keepsD [OF render_keeps_other_gate [OF False assms] one]
      have "render_gate p s1 = render_gate p s" .
      with c1 c2 t False show ?thesis by auto
    qed
  qed
qed






section \<open>The output files\<close>

lemma outputFiles_variants:
  "outputFiles env headHTML pattern footerHTML s =
     [(makePath env s (heap s pattern) ''rendered'',
       formatted env (config s) (renderedCodeFormatter (engines env (engine (heap s pattern))))
         (headHTML @ patternPartialCode (heap s pattern) @ footerHTML) (heap s pattern)),
      (makePath env s (heap s pattern) ''rawTemplate'',
       formatted env (config s) (rawTemplateCodeFormatter (engines env (engine (heap s pattern))))
         (template (heap s pattern)) (heap s pattern)),
      (makePath env s (heap s pattern) ''markupOnly'',
       formatted env (config s) (markupOnlyCodeFormatter (engines env (engine (heap s pattern))))
         (patternPartialCode (heap s pattern)) (heap s pattern))]
     @ (case addOutputFiles (engines env (engine (heap s pattern))) of
          Some f \<Rightarrow> f (config s) s | None \<Rightarrow> [])"
  by (simp add: outputFiles_def formatted_def Let_def or_else_def nullFormatter_def
      defaultFormatter_def split: option.splits)

lemma write_each_run:
  "seq (map (\<lambda>(p, c). outputFileSync env p c) files) s = (r, s', t) \<Longrightarrow>
     s' = s \<and> (r = Ok () \<longrightarrow> t = map write_action files)"
proof (induction files arbitrary: r s' t)
  case Nil
  then show ?case by simp
next
  case (Cons f files)
  obtain p c where f: "f = (p, c)" by (cases f)
  obtain r2 s2 t2 where rest: "seq (map (\<lambda>(p, c). outputFileSync env p c) files) s = (r2, s2, t2)"
    by (metis prod_cases3)
  from Cons.IH [OF rest] Cons.prems f rest show ?case
    by (auto simp: bind_def outputFileSync_def write_action_def split: option.splits)
qed

lemma writePatternFiles_run:
  "writePatternFiles env h p ft s = (r, s', t) \<Longrightarrow>
     s' = s \<and> (r = Ok () \<longrightarrow> t = map write_action (outputFiles env h p ft s))"
  using write_each_run [of env "outputFiles env h p ft s" s r s' t]
  by (simp add: writePatternFiles_def bind_def)

lemma write_files_run:
  assumes "write_files env p h ft s = (Ok (), s', t)"
  shows "t = Emit ''patternlab-pattern-write-begin'' (Some p)
           # map write_action (outputFiles env h p ft
               (snd (collab env (Listeners ''patternlab-pattern-write-begin'' (Some p)) s)))
           @ [Emit ''patternlab-pattern-write-end'' (Some p)]"
proof -
  obtain e1 s1 where c1: "collab env (Listeners ''patternlab-pattern-write-begin'' (Some p)) s = (e1, s1)"
    by (cases "collab env (Listeners ''patternlab-pattern-write-begin'' (Some p)) s")
  obtain r2 s2 t2 where w: "writePatternFiles env h p ft s1 = (r2, s2, t2)"
    by (metis prod_cases3)
  note W = writePatternFiles_run [OF w]
  from assms c1 w W show ?thesis
    by (auto simp: write_files_def bind_def emit_def split: option.splits res.splits prod.splits)
qed

lemma bind_OkE:
  assumes "bind m g s = (Ok y, s', t)"
  obtains x s1 t1 t2 where "m s = (Ok x, s1, t1)" and "g x s1 = (Ok y, s', t2)" and "t = t1 @ t2"
  using assms
  by (auto simp: bind_def split: prod.splits res.splits)

lemma no_write_begin: "acts (\<lambda>a. \<not> is_write a) (begin_render env p)"
  unfolding begin_render_def
  by (intro acts_seq) (simp add: acts_intros)

lemma no_write_fragments: "acts (\<lambda>a. \<not> is_write a) (render_fragments env p head)"
  by (rule acts_render_fragments) simp

lemma render_trace:
  assumes gate: "render_gate p s" and run: "renderSinglePattern env p head s = (Ok True, s', t)"
  shows "\<exists>t0 hh ff sw. list_all (\<lambda>a. \<not> is_write a) t0 \<and>
           t = t0 @ Emit ''patternlab-pattern-write-begin'' (Some p)
                 # map write_action (outputFiles env hh p ff sw)
                 @ [Emit ''patternlab-pattern-write-end'' (Some p),
                    Log (''Built pattern: '' @ patternPartial (heap s' p))]"
proof -
  from run gate have "bind (begin_render env p) (\<lambda>_.
     bind (render_fragments env p head) (\<lambda>(headHTML, footerHTML).
     bind (write_files env p headHTML footerHTML) (\<lambda>_.
     bind (finish_render p) (\<lambda>_. ret True)))) s = (Ok True, s', t)"
    by (simp add: renderSinglePattern_open_gate)
  then obtain u s1 t1 ta where b: "begin_render env p s = (Ok u, s1, t1)"
    and r1: "bind (render_fragments env p head) (\<lambda>(headHTML, footerHTML).
     bind (write_files env p headHTML footerHTML) (\<lambda>_.
     bind (finish_render p) (\<lambda>_. ret True))) s1 = (Ok True, s', ta)" and t: "t = t1 @ ta"
    by (rule bind_OkE)
  from r1 obtain hf s2 t2 tb where f: "render_fragments env p head s1 = (Ok hf, s2, t2)"
    and r2: "(case hf of (headHTML, footerHTML) \<Rightarrow>
     bind (write_files env p headHTML footerHTML) (\<lambda>_.
     bind (finish_render p) (\<lambda>_. ret True))) s2 = (Ok True, s', tb)" and ta: "ta = t2 @ tb"
    by (rule bind_OkE)
  obtain hh ff where hf: "hf = (hh, ff)" by (cases hf)
  from r2 hf obtain u3 s3 t3 tc where w: "write_files env p hh ff s2 = (Ok u3, s3, t3)"
    and r3: "bind (finish_render p) (\<lambda>_. ret True) s3 = (Ok True, s', tc)" and tb: "tb = t3 @ tc"
    by (auto elim: bind_OkE)
  from r3 have tc: "tc = [Log (''Built pattern: '' @ patternPartial (heap s' p))]"
    by (auto simp: bind_def finish_render_run)
  from actsD [OF no_write_begin b] actsD [OF no_write_fragments f]
  have "list_all (\<lambda>a. \<not> is_write a) (t1 @ t2)" by simp
  with write_files_run [OF w [simplified]] t ta tb tc show ?thesis
    by (intro exI [of _ "t1 @ t2"] exI [of _ hh] exI [of _ ff]) auto
qed



section \<open>The first traversal\<close>

lemma seq_map_single_actions:
  assumes one: "\<And>x s. snd (snd (g x s)) = [a x]"
  shows "seq (map g xs) s = (r, s', t) \<Longrightarrow>
           (\<exists>n. t = map a (take n xs)) \<and> (r = Ok () \<longrightarrow> t = map a xs)"
proof (induction xs arbitrary: s r s' t)
  case Nil
  then show ?case by simp
next
  case (Cons x xs)
  obtain r1 s1 t1 where g: "g x s = (r1, s1, t1)" by (cases "g x s")
  with one [of x s] have t1: "t1 = [a x]" by simp
  show ?case
  proof (cases r1)
    case (Stop k)
    with g t1 Cons.prems have "t = [a x]" "r \<noteq> Ok ()"
      by (auto simp: bind_def)
    then show ?thesis
      by (auto intro: exI [of _ "Suc 0"])
  next
    case (Ok u)
    obtain r2 s2 t2 where rest: "seq (map g xs) s1 = (r2, s2, t2)"
      by (cases "seq (map g xs) s1")
    from Cons.IH [OF rest] obtain n where n: "t2 = map a (take n xs)"
      and all: "r2 = Ok () \<longrightarrow> t2 = map a xs" by blast
    from g Ok rest t1 Cons.prems have "t = a x # t2" "r = r2"
      by (auto simp: bind_def)
    with n all show ?thesis
      by (auto intro: exI [of _ "Suc n"])
  qed
qed

lemma load_entry_action: "snd (snd (load_entry env dir e s)) = [entry_action env dir e]"
  by (cases e)
     (auto simp: load_entry_def entry_action_def in_walk_callback_def ext_def
       split: prod.splits option.splits)

lemma process_step_action: "snd (snd (ext env (process_pattern_iterative p) s)) = [process_action p]"
  by (auto simp: ext_def process_action_def split: prod.splits option.splits)

lemma load_all_run:
  assumes "load_all env dir s = (r, s', t)"
  shows "(\<exists>n. t = map (entry_action env dir) (take n (dive env dir))) \<and>
         (r = Ok () \<longrightarrow> t = map (entry_action env dir) (dive env dir)) \<and>
         list_all (\<lambda>a. \<not> is_process a) t"
proof -
  from seq_map_single_actions [of "load_entry env dir" "entry_action env dir", OF load_entry_action]
    assms [unfolded load_all_def]
  have 1: "(\<exists>n. t = map (entry_action env dir) (take n (dive env dir))) \<and>
         (r = Ok () \<longrightarrow> t = map (entry_action env dir) (dive env dir))" by blast
  have "\<not> is_process (entry_action env dir e)" for e
    by (cases e) (simp_all add: entry_action_def)
  with 1 have "list_all (\<lambda>a. \<not> is_process a) t"
    by (auto simp: list_all_iff)
  with 1 show ?thesis by blast
qed

lemma process_all_run:
  assumes "process_all env s = (r, s', t)"
  shows "(\<exists>n. t = map process_action (take n (patterns s))) \<and>
         (r = Ok () \<longrightarrow> t = map process_action (patterns s))"
  using seq_map_single_actions [of "\<lambda>p. ext env (process_pattern_iterative p)" process_action
      "patterns s" s r s' t, OF process_step_action]
    assms
  by (simp add: process_all_def bind_def)




section \<open>The handlers build registers\<close>

lemma keeps_session_setup:
  "env_keeps session env \<Longrightarrow> keeps session (buildPatterns_setup env d)"
  unfolding buildPatterns_setup_def load_graph_def loadPatternGraph_def clear_or_keep_def
    load_data_def load_templates_def reset_globals_def setCacheBust_def
  by (intro keeps_intros keeps_seq keeps_modify)
     (simp_all add: keeps_intros keeps_seq keeps_modify session_def)

lemma keeps_session_iterative:
  "env_keeps session env \<Longrightarrow> keeps session (processAllPatternsIterative env d)"
  unfolding processAllPatternsIterative_def load_all_def process_all_def load_entry_def
  by (intro keeps_intros keeps_seq_map) (auto split: sum.splits intro!: keeps_intros)

lemma keeps_session_recursive:
  "env_keeps session env \<Longrightarrow> keeps session (processAllPatternsRecursive env d)"
  unfolding processAllPatternsRecursive_def recursive_entry_def
  by (intro keeps_intros keeps_seq_map) (auto split: sum.splits intro!: keeps_intros)

lemma keeps_session_head:
  "env_keeps session env \<Longrightarrow> keeps session (processHeadPattern env)"
  unfolding processHeadPattern_def
  by (intro keeps_intros keeps_seq keeps_modify)
     (simp_all add: keeps_intros keeps_seq keeps_modify session_def)

lemma keeps_session_foot:
  "env_keeps session env \<Longrightarrow> keeps session (processFootPattern env)"
  unfolding processFootPattern_def
  by (intro keeps_intros keeps_seq keeps_modify)
     (simp_all add: keeps_intros keeps_seq keeps_modify session_def)

lemma keeps_session_render:
  "env_keeps session env \<Longrightarrow> keeps session (renderSinglePattern env p head)"
  unfolding renderSinglePattern_def begin_render_def render_fragments_def write_files_def
    finish_render_def set_compileState_def
  by (intro keeps_cond keeps_intros keeps_seq keeps_merged_data keeps_update_pattern keeps_modify
      keeps_writePatternFiles)
     (simp_all add: keeps_intros keeps_seq keeps_modify keeps_update_pattern
       keeps_writePatternFiles session_def)

lemma keeps_session_render_all:
  "env_keeps session env \<Longrightarrow> keeps session (render_all env ps head)"
  unfolding render_all_def
  by (intro keeps_seq_map keeps_intros keeps_session_render)

lemma keeps_session_pipeline:
  "env_keeps session env \<Longrightarrow> keeps session (buildPatterns_render env incr)"
  unfolding buildPatterns_render_def expand_patterns_def choose_head_def patternsToBuild_def
    store_and_export_def
  by (intro keeps_intros keeps_seq keeps_seq_map keeps_modify keeps_update_pattern
      keeps_session_render_all)
     (simp_all add: keeps_intros keeps_seq keeps_modify keeps_session_recursive
       keeps_session_head keeps_session_foot keeps_session_render_all session_def)

lemma keeps_session_buildPatterns:
  "env_keeps session env \<Longrightarrow> keeps session (buildPatterns env d)"
  unfolding buildPatterns_def
  by (intro keeps_intros keeps_session_setup keeps_session_iterative keeps_session_pipeline)

lemma keeps_printDebug: "keeps f (printDebug env)"
  unfolding printDebug_def
  by (intro keeps_intros keeps_seq) (simp add: keeps_intros)

lemma in_callback_OkE:
  "in_callback m s = (Ok x, s', t) \<Longrightarrow> m s = (Ok x, s', t)"
  by (auto simp: in_callback_def split: prod.splits res.splits stop.splits)

lemma build_registers:
  assumes k: "env_keeps session env" and idle: "\<not> isBusy s"
    and run: "build env options s = (Ok (), s', t)"
  shows "session s' = (False, listeners s @ [(''patternlab-pattern-change'', Rebuild False),
                                              (''patternlab-global-change'', Rebuild True)])"
proof -
  from run idle have "bind (buildPatterns env (cleanPublic options)) (\<lambda>x. in_callback (seq [
            ext env buildFrontend,
            ext env (copyAssets options),
            register_listeners,
            printDebug env,
            modify (\<lambda>s. s\<lparr>isBusy := False\<rparr>),
            ext env callback])) (s\<lparr>isBusy := True\<rparr>) = (Ok (), s', t)"
    by (simp add: build_def bind_def promise_then_def)
  then obtain u s1 t1 t2 where bp: "buildPatterns env (cleanPublic options) (s\<lparr>isBusy := True\<rparr>) = (Ok u, s1, t1)"
    and cb: "in_callback (seq [
            ext env buildFrontend,
            ext env (copyAssets options),
            register_listeners,
            printDebug env,
            modify (\<lambda>s. s\<lparr>isBusy := False\<rparr>),
            ext env callback]) s1 = (Ok (), s', t2)"
    by (rule bind_OkE)
  from keepsD [OF keeps_session_buildPatterns [OF k] bp]
  have 1: "listeners s1 = listeners s" by (simp add: session_def)
  from in_callback_OkE [OF cb] have "bind (ext env buildFrontend) (\<lambda>_.
     bind (ext env (copyAssets options)) (\<lambda>_. bind register_listeners (\<lambda>_.
     bind (printDebug env) (\<lambda>_. bind (modify (\<lambda>s. s\<lparr>isBusy := False\<rparr>)) (\<lambda>_.
     bind (ext env callback) (\<lambda>_. ret ())))))) s1 = (Ok (), s', t2)"
    by simp
  then obtain s2 s3 s4 s5 s6 ta tb tc td te tf tg th ti tj where
    a: "ext env buildFrontend s1 = (Ok (), s2, ta)" and
    b: "ext env (copyAssets options) s2 = (Ok (), s3, tb)" and
    c: "register_listeners s3 = (Ok (), s4, tc)" and
    d: "printDebug env s4 = (Ok (), s5, td)" and
    e: "ext env callback (s5\<lparr>isBusy := False\<rparr>) = (Ok (), s', te)"
    by (auto elim!: bind_OkE)
  from keepsD [OF keeps_ext [OF k] a] keepsD [OF keeps_ext [OF k] b] 1
  have 3: "listeners s3 = listeners s" by (simp add: session_def)
  from c have 4: "listeners s4 = listeners s3 @ [(''patternlab-pattern-change'', Rebuild False),
                                              (''patternlab-global-change'', Rebuild True)]"
    by (auto simp: register_listeners_def bind_def)
  from keepsD [OF keeps_printDebug d, of listeners] have 5: "listeners s5 = listeners s4" .
  from keepsD [OF keeps_ext [OF k] e] have "session s' = (False, listeners s5)"
    by (simp add: session_def)
  with 3 4 5 show ?thesis by simp
qed

lemma fired_append: "listeners s' = listeners s @ extra \<Longrightarrow>
   fired n s' = fired n s @ map snd (filter (\<lambda>(n', h). n' = n) extra)"
  by (simp add: fired_def)

lemma builds_register:
  assumes k: "env_keeps session env"
  shows "\<not> isBusy s \<Longrightarrow> builds env optss s = (Ok (), s', t) \<Longrightarrow>
    \<not> isBusy s' \<and>
    fired ''patternlab-pattern-change'' s'
      = fired ''patternlab-pattern-change'' s @ replicate (length optss) (Rebuild False) \<and>
    fired ''patternlab-global-change'' s'
      = fired ''patternlab-global-change'' s @ replicate (length optss) (Rebuild True) \<and>
    (\<exists>added. listeners s' = listeners s @ added)"
proof (induction optss arbitrary: s t)
  case Nil
  then show ?case by simp
next
  case (Cons options rest)
  from Cons.prems(2) obtain u s1 t1 t2 where one: "build env options s = (Ok u, s1, t1)"
    and more: "builds env rest s1 = (Ok (), s', t2)"
    by (auto elim: bind_OkE)
  from build_registers [OF k Cons.prems(1) one [simplified]]
  have idle: "\<not> isBusy s1" and l: "listeners s1 = listeners s @
    [(''patternlab-pattern-change'', Rebuild False), (''patternlab-global-change'', Rebuild True)]"
    by (simp_all add: session_def)
  from Cons.IH [OF idle more] fired_append [OF l] l show ?case
    by (auto simp: replicate_app_Cons_same)
qed

text \<open>C10. A build that starts on an idle context and whose promise is fulfilled has
  added one handler for patternlab-pattern-change and one for patternlab-global-change
  after the handlers already registered, and has removed none; so after N such builds an
  emission of either event calls N more handlers than before. Each handler does nothing
  while the context is busy and otherwise calls build again with cleanPublic set
  (collaborators leaving the busy flag and the registrations alone).\<close>
theorem listeners_accumulate:
  assumes "env_keeps session env" and "\<not> isBusy s"
  shows "(build env options s = (Ok (), s1, t1) \<longrightarrow>
            \<not> isBusy s1 \<and>
            listeners s1 = listeners s @ [(''patternlab-pattern-change'', Rebuild False),
                                          (''patternlab-global-change'', Rebuild True)]) \<and>
         (builds env optss s = (Ok (), s2, t2) \<longrightarrow>
            fired ''patternlab-pattern-change'' s2
              = fired ''patternlab-pattern-change'' s @ replicate (length optss) (Rebuild False) \<and>
            fired ''patternlab-global-change'' s2
              = fired ''patternlab-global-change'' s @ replicate (length optss) (Rebuild True) \<and>
            (\<exists>added. listeners s2 = listeners s @ added)) \<and>
         (isBusy s3 \<longrightarrow> on_change env options h s3 = (Ok (), s3, [])) \<and>
         (\<not> isBusy s3 \<longrightarrow>
            on_change env options (Rebuild cp) s3 = build env (options\<lparr>cleanPublic := cp\<rparr>) s3)"
proof (intro conjI impI)
  assume "build env options s = (Ok (), s1, t1)"
  from build_registers [OF assms this]
  show "\<not> isBusy s1" and "listeners s1 = listeners s @
     [(''patternlab-pattern-change'', Rebuild False), (''patternlab-global-change'', Rebuild True)]"
    by (simp_all add: session_def)
next
  assume "builds env optss s = (Ok (), s2, t2)"
  from builds_register [OF assms this]
  show "fired ''patternlab-pattern-change'' s2
          = fired ''patternlab-pattern-change'' s @ replicate (length optss) (Rebuild False)"
    and "fired ''patternlab-global-change'' s2
          = fired ''patternlab-global-change'' s @ replicate (length optss) (Rebuild True)"
    and "\<exists>added. listeners s2 = listeners s @ added"
    by blast+
next
  assume "isBusy s3"
  then show "on_change env options h s3 = (Ok (), s3, [])"
    by (cases h) (simp add: on_change_def)
next
  assume "\<not> isBusy s3"
  then show "on_change env options (Rebuild cp) s3 = build env (options\<lparr>cleanPublic := cp\<rparr>) s3"
    by (simp add: on_change_def)
qed

theorem listeners_accumulate_witness:
  "env_keeps session ex_env \<and> \<not> isBusy ex_ctx \<and>
   fst (build ex_env ex_options ex_ctx) = Ok () \<and>
   listeners (fst (snd (build ex_env ex_options ex_ctx)))
     = [(''patternlab-pattern-change'', Rebuild False), (''patternlab-global-change'', Rebuild True)] \<and>
   fst (builds ex_env [ex_options, ex_options] ex_ctx) = Ok () \<and>
   fired ''patternlab-pattern-change'' (fst (snd (builds ex_env [ex_options, ex_options] ex_ctx)))
     = [Rebuild False, Rebuild False] \<and>
   fired ''patternlab-global-change'' (fst (snd (builds ex_env [ex_options, ex_options] ex_ctx)))
     = [Rebuild True, Rebuild True] \<and>
   isBusy (ex_ctx\<lparr>isBusy := True\<rparr>) \<and>
   on_change ex_env ex_options (Rebuild False) (ex_ctx\<lparr>isBusy := True\<rparr>)
     = (Ok (), ex_ctx\<lparr>isBusy := True\<rparr>, [])"
proof -
  have k: "env_keeps session ex_env"
    by (simp add: env_keeps_def ex_env_def ex_collab_def session_def split: call.splits)
  have idle: "\<not> isBusy ex_ctx"
    by (simp add: ex_ctx_def)
  have ok1: "fst (build ex_env ex_options ex_ctx) = Ok ()"
    by (simp add: run_defs ex_defs)
  then have one: "build ex_env ex_options ex_ctx
      = (Ok (), fst (snd (build ex_env ex_options ex_ctx)), snd (snd (build ex_env ex_options ex_ctx)))"
    by (metis prod.collapse)
  have ok2: "fst (builds ex_env [ex_options, ex_options] ex_ctx) = Ok ()"
    by (simp add: run_defs ex_defs)
  then have two: "builds ex_env [ex_options, ex_options] ex_ctx
      = (Ok (), fst (snd (builds ex_env [ex_options, ex_options] ex_ctx)),
         snd (snd (builds ex_env [ex_options, ex_options] ex_ctx)))"
    by (metis prod.collapse)
  have none: "listeners ex_ctx = []" "fired ''patternlab-pattern-change'' ex_ctx = []"
    "fired ''patternlab-global-change'' ex_ctx = []"
    by (simp_all add: ex_ctx_def fired_def)
  from listeners_accumulate [OF k idle, of ex_options
      "fst (snd (build ex_env ex_options ex_ctx))" "snd (snd (build ex_env ex_options ex_ctx))"
      "[ex_options, ex_options]" "fst (snd (builds ex_env [ex_options, ex_options] ex_ctx))"
      "snd (snd (builds ex_env [ex_options, ex_options] ex_ctx))"
      "ex_ctx\<lparr>isBusy := True\<rparr>" "Rebuild False" False]
    k idle one two none ok1 ok2
  show ?thesis by (simp del: builds.simps)
qed

section \<open>How buildPatterns can end\<close>

lemma stops_ret [stops_intros]: "stops P (ret x)"
  by (simp add: stops_def)

lemma stops_gets [stops_intros]: "stops P (gets g)"
  by (simp add: stops_def)

lemma stops_modify [stops_intros]: "stops P (modify h)"
  by (simp add: stops_def)

lemma stops_log [stops_intros]: "stops P (log m)"
  by (simp add: stops_def)

lemma stops_tell [stops_intros]: "stops P (tell a)"
  by (simp add: stops_def)

lemma stops_stop_with [stops_intros]: "P k \<Longrightarrow> stops P (stop_with k)"
  by (simp add: stops_def)

lemma stops_bind [stops_intros]: "stops P m \<Longrightarrow> (\<And>x. stops P (g x)) \<Longrightarrow> stops P (bind m g)"
  unfolding stops_def bind_def
  by (fastforce split: prod.splits res.splits)

lemma stops_seq: "list_all (stops P) ms \<Longrightarrow> stops P (seq ms)"
  by (induction ms) (simp_all add: stops_ret stops_bind)

lemma stops_if_then [stops_intros]: "stops P m \<Longrightarrow> stops P (if_then b m)"
  by (simp add: if_then_def stops_ret)

lemma stops_attempt [stops_intros]: "(\<And>e. P (Throw e)) \<Longrightarrow> stops P (attempt r)"
  by (cases r) (simp_all add: attempt_def stops_stop_with stops_ret)

lemma stops_try_catch [stops_intros]:
  "stops P m \<Longrightarrow> (\<And>e. stops P (h e)) \<Longrightarrow> stops P (try_catch m h)"
  unfolding stops_def try_catch_def
  by (fastforce split: prod.splits res.splits stop.splits)

lemma stops_ext [stops_intros]: "(\<And>e. P (Throw e)) \<Longrightarrow> stops P (ext env c)"
  unfolding stops_def ext_def
  by (auto split: prod.splits option.splits)

lemma stops_emit [stops_intros]: "(\<And>e. P (Throw e)) \<Longrightarrow> stops P (emit env n p)"
  unfolding stops_def emit_def
  by (auto split: prod.splits option.splits)

lemma stops_readFileSync [stops_intros]: "(\<And>e. P (Throw e)) \<Longrightarrow> stops P (readFileSync env p)"
  by (simp add: readFileSync_def stops_intros)

lemma stops_emptyDirSync [stops_intros]: "(\<And>e. P (Throw e)) \<Longrightarrow> stops P (emptyDirSync env p)"
  by (auto simp: emptyDirSync_def split: option.splits intro!: stops_intros)

lemma stops_if [stops_intros]:
  "(b \<Longrightarrow> stops P m1) \<Longrightarrow> (\<not> b \<Longrightarrow> stops P m2) \<Longrightarrow> stops P (if b then m1 else m2)"
  by simp

lemma stops_let [stops_intros]: "stops P (g x) \<Longrightarrow> stops P (let y = x in g y)"
  by simp

lemma setup_settled: "stops settled (buildPatterns_setup env d)"
  unfolding buildPatterns_setup_def load_graph_def loadPatternGraph_def clear_or_keep_def
    load_data_def load_templates_def reset_globals_def setCacheBust_def
  by (intro stops_intros stops_seq) (simp_all add: stops_intros stops_seq)

lemma catch_settled: "stops settled (promise_catch p (\<lambda>err. log (msg err)))"
  unfolding stops_def promise_catch_def in_callback_def
  by (auto split: prod.splits res.splits stop.splits)

lemma buildPatterns_settled: "stops settled (buildPatterns env d)"
  unfolding buildPatterns_def
  by (intro stops_intros setup_settled catch_settled)

lemma run_eqI: "fst x = r \<Longrightarrow> x = (r, fst (snd x), snd (snd x))"
  by (cases x) auto




section \<open>Full and incremental rebuilds\<close>

lemma bind_runD:
  "m s = (Ok x, s1, t1) \<Longrightarrow> bind m g s = (r, s', t) \<Longrightarrow> \<exists>t2. g x s1 = (r, s', t2) \<and> t = t1 @ t2"
  by (auto simp: bind_def split: prod.splits)

lemma buildPatterns_unfold:
  "buildPatterns env d =
     bind (load_graph env d) (\<lambda>gnu.
     bind (clear_or_keep env (incrementalBuildsEnabled d gnu)) (\<lambda>_.
     build_rest env (incrementalBuildsEnabled d gnu)))"
  by (simp only: buildPatterns_def buildPatterns_setup_def build_rest_def Let_def seq.simps
      bind_assoc ret_bind)

lemma clear_run:
  "clear_or_keep env False s = (r, s', t) \<Longrightarrow> s' = s \<and> t = [FsEmptyDir (public_patterns (config s))]"
  by (auto simp: clear_or_keep_def emptyDirSync_def bind_def split: option.splits)

lemma keep_run: "clear_or_keep env True s = (Ok (), s, [Log ''Incremental builds enabled.''])"
  by (simp add: clear_or_keep_def)

lemma load_graph_value:
  assumes "load_graph env d s = (Ok gnu, s1, t1)"
  shows "\<exists>g. gnu = (\<not> PatternGraph_checkVersion env g) \<and>
           (d \<longrightarrow> g = PatternGraph_empty env) \<and>
           (\<not> d \<longrightarrow> PatternGraph_loadFromFile env
                      (snd (collab env (Listeners ''patternlab-build-pattern-start'' None) s)) = Inr g)"
  using assms
  unfolding load_graph_def loadPatternGraph_def
  by (auto simp: bind_def emit_def attempt_def if_then_def ext_def Let_def
      split: prod.splits res.splits option.splits sum.splits if_splits)

lemma acts_renderSinglePattern:
  assumes "\<And>m. P (Log m)" and "\<And>n p. P (Emit n p)" and "\<And>f c. P (FsOutputFile f c)"
  shows "acts P (renderSinglePattern env p head)"
  unfolding renderSinglePattern_def begin_render_def write_files_def
  by (intro acts_cond acts_intros acts_seq acts_render_fragments acts_finish_render)
     (simp_all add: acts_intros acts_writePatternFiles assms)

lemma acts_render_all:
  assumes "\<And>m. P (Log m)" and "\<And>n p. P (Emit n p)" and "\<And>f c. P (FsOutputFile f c)"
  shows "acts P (render_all env ps head)"
  unfolding render_all_def
  by (intro acts_seq_map acts_intros acts_renderSinglePattern assms)

lemma acts_pipeline:
  assumes q: "\<And>a. quiet a \<Longrightarrow> P a" and e: "\<And>n p. P (Emit n p)" and w: "\<And>f c. P (FsOutputFile f c)"
  shows "acts P (buildPatterns_render env incr)"
proof -
  have l: "P (Log m)" for m by (rule q) simp
  have x: "P (Ext c)" for c by (rule q) simp
  show ?thesis
    unfolding buildPatterns_render_def
    by (intro acts_intros acts_seq)
       (simp_all add: acts_intros acts_render_all l e w x
         acts_mono [OF quiet_expand q] acts_mono [OF quiet_head q] acts_mono [OF quiet_foot q]
         acts_mono [OF quiet_choose_head q] acts_mono [OF quiet_patternsToBuild q]
         acts_mono [OF quiet_store q])
qed

lemma acts_build_rest:
  assumes q: "\<And>a. quiet a \<Longrightarrow> P a" and e: "\<And>n p. P (Emit n p)" and w: "\<And>f c. P (FsOutputFile f c)"
  shows "acts P (build_rest env incr)"
proof -
  have l: "P (Log m)" for m by (rule q) simp
  show ?thesis
    unfolding build_rest_def
    by (intro acts_intros acts_seq acts_pipeline)
       (simp_all add: l e w q acts_mono [OF quiet_load_data q] acts_mono [OF quiet_load_templates q]
         acts_mono [OF quiet_reset_globals q] acts_mono [OF quiet_iterative q])
qed

lemma quiet_no_write: "quiet a \<Longrightarrow> \<not> is_write a"
  by (induction a rule: quiet.induct) auto

lemma quiet_no_emptyDir: "quiet a \<Longrightarrow> \<not> is_emptyDir a"
  by (induction a rule: quiet.induct) auto

lemma update_pattern_run:
  "update_pattern p f s = (Ok (), s\<lparr>heap := (heap s)(p := f (heap s p))\<rparr>, [])"
  by (simp add: update_pattern_def)

lemma mark_all_run:
  "\<exists>sm. seq (map (\<lambda>p. update_pattern p (\<lambda>q. q\<lparr>compileState := NEEDS_REBUILD\<rparr>)) ps) s
          = (Ok (), sm, []) \<and>
        patterns sm = patterns s \<and>
        (\<forall>p \<in> set ps. compileState (heap sm p) = NEEDS_REBUILD) \<and>
        (\<forall>p. compileState (heap s p) = NEEDS_REBUILD \<longrightarrow> compileState (heap sm p) = NEEDS_REBUILD)"
proof (induction ps arbitrary: s)
  case Nil
  then show ?case by simp
next
  case (Cons p ps)
  from Cons.IH [of "s\<lparr>heap := (heap s)(p := (heap s p)\<lparr>compileState := NEEDS_REBUILD\<rparr>)\<rparr>"]
  show ?case
    by (auto simp: bind_def update_pattern_run)
qed

lemma full_rebuild_marks:
  "\<exists>sm. patternsToBuild env False s = (Ok (patterns s), sm, []) \<and> patterns sm = patterns s \<and>
     (\<forall>p \<in> set (patterns s). compileState (heap sm p) = NEEDS_REBUILD)"
  using mark_all_run [of "patterns s" s]
  by (auto simp: patternsToBuild_def bind_def)

lemma cleared_before_written:
  assumes lg: "load_graph env d s = (Ok gnu, s1, t1)" and run: "buildPatterns env d s = (r, s', t)"
    and full: "\<not> incrementalBuildsEnabled d gnu"
  shows "\<exists>ta tb. t = ta @ FsEmptyDir (public_patterns (config s1)) # tb \<and>
           list_all (\<lambda>a. \<not> is_write a) ta"
proof -
  from bind_runD [OF lg run [unfolded buildPatterns_unfold]] full
  obtain t2 where rest: "bind (clear_or_keep env False) (\<lambda>_. build_rest env False) s1 = (r, s', t2)"
    and t: "t = t1 @ t2" by auto
  obtain rc sc tc where c: "clear_or_keep env False s1 = (rc, sc, tc)"
    by (cases "clear_or_keep env False s1")
  from clear_run [OF c] have tc: "tc = [FsEmptyDir (public_patterns (config s1))]" by simp
  from rest c tc obtain tb where "t2 = FsEmptyDir (public_patterns (config s1)) # tb"
    by (cases rc) (auto simp: bind_def split: prod.splits)
  moreover from actsD [OF acts_mono [OF quiet_load_graph quiet_no_write] lg]
  have "list_all (\<lambda>a. \<not> is_write a) t1" .
  ultimately show ?thesis using t by blast
qed

lemma nothing_cleared:
  assumes lg: "load_graph env d s = (Ok gnu, s1, t1)" and run: "buildPatterns env d s = (r, s', t)"
    and incr: "incrementalBuildsEnabled d gnu"
  shows "list_all (\<lambda>a. \<not> is_emptyDir a) t"
proof -
  note q = quiet_no_emptyDir
  from bind_runD [OF lg run [unfolded buildPatterns_unfold]] incr
  obtain t2 where rest: "bind (clear_or_keep env True) (\<lambda>_. build_rest env True) s1 = (r, s', t2)"
    and t: "t = t1 @ t2" by auto
  have "acts (\<lambda>a. \<not> is_emptyDir a) (bind (clear_or_keep env True) (\<lambda>_. build_rest env True))"
    by (intro acts_intros acts_build_rest) (simp_all add: clear_or_keep_def acts_intros q)
  from actsD [OF this rest] actsD [OF acts_mono [OF quiet_load_graph q] lg] t
  show ?thesis by simp
qed

lemma setup_flag:
  assumes "buildPatterns_setup env d s = (Ok incr, s2, t2)" and "load_graph env d s = (Ok gnu, s1, t1)"
  shows "incr = incrementalBuildsEnabled d gnu"
  using assms
  by (auto simp: buildPatterns_setup_def bind_def Let_def split: prod.splits res.splits)



section \<open>Missing templates\<close>

lemma quiet_no_render: "quiet a \<Longrightarrow> \<not> renders a"
  by (induction a rule: quiet.induct) auto

lemma load_data_returns: "\<exists>s' t. load_data env s = (Ok (), s', t)"
  by (simp add: load_data_def bind_def try_catch_def attempt_def split: sum.splits)

lemma load_templates_fatal:
  assumes "\<not> templates_readable env (config s)"
  shows "\<exists>s' t. load_templates env s = (Stop (Exit 1), s', t) \<and> Log essential_file_message \<in> set t"
  using assms
  by (auto simp: templates_readable_def load_templates_def bind_def try_catch_def readFileSync_def
      attempt_def isl_def split: sum.splits)

lemma head_fatal:
  assumes "isl (fs_readFileSync env (path_resolve env [source_meta (config s), ''_00-head.mustache'']))"
  shows "\<exists>t. processHeadPattern env s = (Stop (Exit 1), s, t) \<and>
           Log (head_missing_message env (config s)) \<in> set t"
  using assms
  by (auto simp: processHeadPattern_def bind_def try_catch_def readFileSync_def
      attempt_def if_then_def isl_def split: sum.splits)

lemma foot_fatal:
  assumes "isl (fs_readFileSync env (path_resolve env [source_meta (config s), ''_01-foot.mustache'']))"
  shows "\<exists>t. processFootPattern env s = (Stop (Exit 1), s, t) \<and>
           Log (foot_missing_message env (config s)) \<in> set t"
  using assms
  by (auto simp: processFootPattern_def bind_def try_catch_def readFileSync_def
      attempt_def if_then_def isl_def split: sum.splits)

lemma no_render_clear: "acts (\<lambda>a. \<not> renders a) (clear_or_keep env incr)"
  unfolding clear_or_keep_def
  by (intro acts_intros) simp_all

lemma no_render_setup: "acts (\<lambda>a. \<not> renders a) (buildPatterns_setup env d)"
  unfolding buildPatterns_setup_def
  by (intro acts_intros acts_seq)
     (simp_all add: no_render_clear acts_mono [OF quiet_load_graph quiet_no_render]
       acts_mono [OF quiet_load_data quiet_no_render]
       acts_mono [OF quiet_load_templates quiet_no_render]
       acts_mono [OF quiet_reset_globals quiet_no_render])

lemmas no_render_quiet =
  acts_mono [OF quiet_load_graph quiet_no_render] acts_mono [OF quiet_load_data quiet_no_render]
  acts_mono [OF quiet_load_templates quiet_no_render] acts_mono [OF quiet_iterative quiet_no_render]
  acts_mono [OF quiet_expand quiet_no_render] acts_mono [OF quiet_head quiet_no_render]
  acts_mono [OF quiet_foot quiet_no_render]

lemma structural_fatal:
  assumes lg: "load_graph env d s = (Ok gnu, s1, t1)"
    and cl: "clear_or_keep env (incrementalBuildsEnabled d gnu) s1 = (Ok (), s2, t2)"
    and ld: "load_data env s2 = (r3, s3, t3)"
    and bad: "\<not> templates_readable env (config s3)"
  shows "\<exists>sx tx. buildPatterns env d s = (Stop (Exit 1), sx, tx) \<and>
           Log essential_file_message \<in> set tx \<and> list_all (\<lambda>a. \<not> renders a) tx"
proof -
  from load_data_returns [of env s2] ld have r3: "r3 = Ok ()" by auto
  from load_templates_fatal [OF bad] obtain sx tl where
    lt: "load_templates env s3 = (Stop (Exit 1), sx, tl)" and m: "Log essential_file_message \<in> set tl"
    by blast
  from lg cl ld r3 lt have "buildPatterns env d s = (Stop (Exit 1), sx, t1 @ t2 @ t3 @ tl)"
    by (simp add: buildPatterns_unfold build_rest_def bind_def)
  moreover from actsD [OF no_render_quiet(1) lg] actsD [OF no_render_clear cl]
    actsD [OF no_render_quiet(2) ld] actsD [OF no_render_quiet(3) lt]
  have "list_all (\<lambda>a. \<not> renders a) (t1 @ t2 @ t3 @ tl)" by simp
  ultimately show ?thesis using m by auto
qed

lemma head_fatal_build:
  assumes su: "buildPatterns_setup env d s = (Ok incr, u1, v1)"
    and it: "processAllPatternsIterative env (source_patterns (config u1)) u1 = (Ok (), u2, v2)"
    and ex: "expand_patterns env u2 = (Ok (), u3, v3)"
    and bad: "isl (fs_readFileSync env (path_resolve env [source_meta (config u3), ''_00-head.mustache'']))"
  shows "\<exists>tx. buildPatterns env d s = (Stop (Exit 1), u3, tx) \<and>
           Log (head_missing_message env (config u3)) \<in> set tx \<and> list_all (\<lambda>a. \<not> renders a) tx"
proof -
  from head_fatal [OF bad] obtain th where
    h: "processHeadPattern env u3 = (Stop (Exit 1), u3, th)"
    and m: "Log (head_missing_message env (config u3)) \<in> set th"
    by blast
  from su it ex h have "buildPatterns env d s = (Stop (Exit 1), u3, v1 @ v2 @ v3 @ th)"
    by (simp add: buildPatterns_def buildPatterns_render_def bind_def promise_catch_def
        promise_then_def in_callback_def)
  moreover from actsD [OF no_render_setup su] actsD [OF no_render_quiet(4) it]
    actsD [OF no_render_quiet(5) ex] actsD [OF no_render_quiet(6) h]
  have "list_all (\<lambda>a. \<not> renders a) (v1 @ v2 @ v3 @ th)" by simp
  ultimately show ?thesis using m by auto
qed

lemma foot_fatal_build:
  assumes su: "buildPatterns_setup env d s = (Ok incr, u1, v1)"
    and it: "processAllPatternsIterative env (source_patterns (config u1)) u1 = (Ok (), u2, v2)"
    and ex: "expand_patterns env u2 = (Ok (), u3, v3)"
    and hd: "processHeadPattern env u3 = (Ok (), u4, v4)"
    and bad: "isl (fs_readFileSync env (path_resolve env [source_meta (config u4), ''_01-foot.mustache'']))"
  shows "\<exists>tx. buildPatterns env d s = (Stop (Exit 1), u4, tx) \<and>
           Log (foot_missing_message env (config u4)) \<in> set tx \<and> list_all (\<lambda>a. \<not> renders a) tx"
proof -
  from foot_fatal [OF bad] obtain tf where
    f: "processFootPattern env u4 = (Stop (Exit 1), u4, tf)"
    and m: "Log (foot_missing_message env (config u4)) \<in> set tf"
    by blast
  from su it ex hd f have "buildPatterns env d s = (Stop (Exit 1), u4, v1 @ v2 @ v3 @ v4 @ tf)"
    by (simp add: buildPatterns_def buildPatterns_render_def bind_def promise_catch_def
        promise_then_def in_callback_def)
  moreover from actsD [OF no_render_setup su] actsD [OF no_render_quiet(4) it]
    actsD [OF no_render_quiet(5) ex] actsD [OF no_render_quiet(6) hd] actsD [OF no_render_quiet(7) f]
  have "list_all (\<lambda>a. \<not> renders a) (v1 @ v2 @ v3 @ v4 @ tf)" by simp
  ultimately show ?thesis using m by auto
qed

lemma exit_ends_build:
  assumes "\<not> isBusy s"
    and "buildPatterns env (cleanPublic options) (s\<lparr>isBusy := True\<rparr>) = (Stop (Exit n), sx, tx)"
  shows "build env options s = (Stop (Exit n), sx, tx) \<and>
         patternsonly env options s = (Stop (Exit n), sx, tx)"
  using assms
  by (simp add: build_def patternsonly_def bind_def promise_then_def)

lemma keeps_config_load_graph: "env_keeps config env \<Longrightarrow> keeps config (load_graph env d)"
  unfolding load_graph_def loadPatternGraph_def
  by (intro keeps_intros keeps_seq keeps_modify) (simp_all add: keeps_intros keeps_seq)

lemma keeps_clear: "keeps f (clear_or_keep env incr)"
  unfolding clear_or_keep_def
  by (intro keeps_intros)

lemma keeps_config_load_data: "keeps config (load_data env)"
  unfolding load_data_def
  by (intro keeps_intros keeps_seq) (simp_all add: keeps_intros keeps_seq keeps_modify)

lemma keeps_config_setup: "env_keeps config env \<Longrightarrow> keeps config (buildPatterns_setup env d)"
  unfolding buildPatterns_setup_def load_templates_def reset_globals_def setCacheBust_def
  by (intro keeps_intros keeps_seq keeps_config_load_graph)
     (simp_all add: keeps_intros keeps_seq keeps_modify keeps_clear keeps_config_load_data)

lemma keeps_iterative: "env_keeps f env \<Longrightarrow> keeps f (processAllPatternsIterative env d)"
  unfolding processAllPatternsIterative_def load_all_def process_all_def load_entry_def
  by (intro keeps_intros keeps_seq_map) (auto split: sum.splits intro!: keeps_intros)

lemma keeps_recursive: "env_keeps f env \<Longrightarrow> keeps f (processAllPatternsRecursive env d)"
  unfolding processAllPatternsRecursive_def recursive_entry_def
  by (intro keeps_intros keeps_seq_map) (auto split: sum.splits intro!: keeps_intros)

lemma keeps_expand: "env_keeps f env \<Longrightarrow> keeps f (expand_patterns env)"
  unfolding expand_patterns_def
  by (intro keeps_seq) (simp add: keeps_intros keeps_recursive)

lemma keeps_config_head: "env_keeps config env \<Longrightarrow> keeps config (processHeadPattern env)"
  unfolding processHeadPattern_def
  by (intro keeps_intros keeps_seq keeps_modify)
     (simp_all add: keeps_intros keeps_seq keeps_modify)

text \<open>the steps of the pipeline before the patterns to build are chosen do not get past
  an unreadable head or foot\<close>
lemma pipeline_blocked:
  assumes k: "env_keeps config env"
    and bad: "isl (fs_readFileSync env (path_resolve env [source_meta (config s), ''_00-head.mustache''])) \<or>
              isl (fs_readFileSync env (path_resolve env [source_meta (config s), ''_01-foot.mustache'']))"
    and run: "buildPatterns_render env incr s = (r, s', t)"
  shows "list_all (\<lambda>a. \<not> renders a) t"
proof -
  obtain r3 u3 v3 where ex: "expand_patterns env s = (r3, u3, v3)"
    by (cases "expand_patterns env s")
  note p3 = actsD [OF no_render_quiet(5) ex]
  from keepsD [OF keeps_expand [OF k] ex] have c3: "config u3 = config s" .
  show ?thesis
  proof (cases r3)
    case (Stop k)
    with ex run p3 show ?thesis
      by (auto simp: buildPatterns_render_def bind_def)
  next
    case (Ok u)
    obtain r4 u4 v4 where hd: "processHeadPattern env u3 = (r4, u4, v4)"
      by (cases "processHeadPattern env u3")
    note p4 = actsD [OF no_render_quiet(6) hd]
    from keepsD [OF keeps_config_head [OF k] hd] c3 have c4: "config u4 = config s" by simp
    show ?thesis
    proof (cases r4)
      case (Stop k)
      with Ok ex hd run p3 p4 show ?thesis
        by (auto simp: buildPatterns_render_def bind_def)
    next
      case ok4: (Ok u')
      with head_fatal [of env u3] hd c3 bad
      have "isl (fs_readFileSync env (path_resolve env [source_meta (config u4), ''_01-foot.mustache'']))"
        by (auto simp: c4)
      from foot_fatal [OF this] obtain tf where
        f: "processFootPattern env u4 = (Stop (Exit 1), u4, tf)" by blast
      note p5 = actsD [OF no_render_quiet(7) f]
      from Ok ok4 ex hd f run p3 p4 p5 show ?thesis
        by (auto simp: buildPatterns_render_def bind_def)
    qed
  qed
qed

lemma catch_trace:
  assumes "promise_catch (promise_then p f) (\<lambda>err. log (msg err)) s = (r, s', t)"
    and "p s = (r1, s1, t1)" and "list_all P t1"
    and "\<And>x r2 s2 t2. r1 = Ok x \<Longrightarrow> f x s1 = (r2, s2, t2) \<Longrightarrow> list_all P t2"
    and "\<And>m. P (Log m)"
  shows "list_all P t"
  using assms
  by (auto simp: promise_catch_def promise_then_def bind_def in_callback_def
      split: prod.splits res.splits stop.splits)

lemma no_render_without_head_or_foot:
  assumes k: "env_keeps config env"
    and bad: "isl (fs_readFileSync env (path_resolve env [source_meta (config s), ''_00-head.mustache''])) \<or>
              isl (fs_readFileSync env (path_resolve env [source_meta (config s), ''_01-foot.mustache'']))"
    and run: "buildPatterns env d s = (r, s', t)"
  shows "list_all (\<lambda>a. \<not> renders a) t"
proof -
  obtain r1 u1 v1 where su: "buildPatterns_setup env d s = (r1, u1, v1)"
    by (cases "buildPatterns_setup env d s")
  note p1 = actsD [OF no_render_setup su]
  from keepsD [OF keeps_config_setup [OF k] su] have c1: "config u1 = config s" .
  show ?thesis
  proof (cases r1)
    case (Stop k)
    with su run p1 show ?thesis
      by (auto simp: buildPatterns_def bind_def)
  next
    case (Ok incr)
    obtain r2 u2 v2 where it: "bind (gets config) (\<lambda>cfg. processAllPatternsIterative env (source_patterns cfg)) u1
        = (r2, u2, v2)"
      by (metis prod_cases3)
    then have it': "processAllPatternsIterative env (source_patterns (config u1)) u1 = (r2, u2, v2)"
      by (simp add: bind_def)
    note p2 = actsD [OF no_render_quiet(4) it']
    from keepsD [OF keeps_iterative [OF k] it'] c1 have c2: "config u2 = config s" by simp
    from su Ok run obtain tr where
      c: "promise_catch (promise_then
            (bind (gets config) (\<lambda>cfg. processAllPatternsIterative env (source_patterns cfg)))
            (\<lambda>_. buildPatterns_render env incr))
            (\<lambda>err. log (''Error in buildPatterns(): '' @ err)) u1 = (r, s', tr)"
      and t: "t = v1 @ tr"
      by (auto simp: buildPatterns_def bind_def split: prod.splits)
    have "list_all (\<lambda>a. \<not> renders a) tr"
    proof (rule catch_trace [OF c it p2])
      fix x r2' s2 t2
      assume "buildPatterns_render env incr u2 = (r2', s2, t2)"
      with pipeline_blocked [OF k _ this] bad c2
      show "list_all (\<lambda>a. \<not> renders a) t2" by simp
    next
      fix m :: string
      show "\<not> renders (Log m)" by simp
    qed
    with p1 t show ?thesis by simp
  qed
qed

lemma no_render_without_templates:
  assumes k: "env_keeps config env"
    and bad: "\<not> templates_readable env (config s)"
    and run: "buildPatterns env d s = (r, s', t)"
  shows "list_all (\<lambda>a. \<not> renders a) t"
proof -
  obtain r1 s1 t1 where lg: "load_graph env d s = (r1, s1, t1)"
    by (cases "load_graph env d s")
  note p1 = actsD [OF no_render_quiet(1) lg]
  from keepsD [OF keeps_config_load_graph [OF k] lg] have c1: "config s1 = config s" .
  show ?thesis
  proof (cases r1)
    case (Stop k)
    with lg run p1 show ?thesis
      by (auto simp: buildPatterns_unfold bind_def)
  next
    case (Ok gnu)
    obtain r2 s2 t2 where cl: "clear_or_keep env (incrementalBuildsEnabled d gnu) s1 = (r2, s2, t2)"
      by (metis prod_cases3)
    note p2 = actsD [OF no_render_clear cl]
    from keepsD [OF keeps_clear cl, of config] c1 have c2: "config s2 = config s" by simp
    show ?thesis
    proof (cases r2)
      case (Stop k)
      with Ok lg cl run p1 p2 show ?thesis
        by (auto simp: buildPatterns_unfold bind_def)
    next
      case ok2: (Ok u)
      obtain r3 s3 t3 where ld: "load_data env s2 = (r3, s3, t3)"
        by (cases "load_data env s2")
      from keepsD [OF keeps_config_load_data ld] c2 bad
      have "\<not> templates_readable env (config s3)" by simp
      moreover from cl ok2 have "clear_or_keep env (incrementalBuildsEnabled d gnu) s1 = (Ok (), s2, t2)"
        by simp
      ultimately show ?thesis
        using structural_fatal [OF lg [unfolded Ok] _ ld] run by auto
    qed
  qed
qed



end
